theory Spec2Isabelle
  imports Main "HOL-Library.Sublist"
begin

section \<open>JavaScript values the extension computes with\<close>

text \<open>
  The extension is TypeScript running on Node inside the editor host. Strings are
  modelled as \<open>string\<close> (each \<open>char\<close> standing for one code unit, so the code units
  0 to 255), the numbers that occur (byte counts, entry counts, mode bits) are
  non-negative integers and are modelled as \<open>nat\<close>: a double holds them exactly up to
  \<open>2^53 - 1\<close>, and so it does every quotient by a power of two that \<open>formatSize\<close>
  forms. Where the code adds two numbers whose sum may pass that bound (the running
  total of \<open>calculateDirSize\<close>), the rounding of the addition is written out.
\<close>

text \<open>\<open>Number.prototype.toString(radix)\<close> and template-literal rendering of a
  non-negative integer.\<close>

definition digit_char :: "nat \<Rightarrow> char" where
  "digit_char d = ''0123456789abcdef'' ! d"

function show_radix :: "nat \<Rightarrow> nat \<Rightarrow> string" where
  "show_radix b n =
     (if b < 2 \<or> n < b then [digit_char n]
      else show_radix b (n div b) @ [digit_char (n mod b)])"
  by pat_completeness auto
termination
  by (relation "measure snd") auto

declare show_radix.simps [simp del]

definition show_nat :: "nat \<Rightarrow> string" where
  "show_nat n = show_radix 10 n"

text \<open>
  Reading a decimal numeral back, written without reference to the printer above:
  \<open>is_decimal_of s n\<close> says that \<open>s\<close> is the decimal numeral of \<open>n\<close>, that is a
  non-empty string of decimal digits without a leading zero (unless it is the single
  digit) whose value is \<open>n\<close>. The statements about rendered numbers use it to say
  which string is meant.
\<close>

definition is_digit :: "char \<Rightarrow> bool" where
  "is_digit c = (c \<in> set ''0123456789'')"

definition digit_val :: "char \<Rightarrow> nat" where
  "digit_val c =
     (case map_of (zip ''0123456789'' [0, 1, 2, 3, 4, 5, 6, 7, 8, 9]) c of
        None \<Rightarrow> 0
      | Some d \<Rightarrow> d)"

definition decimal_value :: "string \<Rightarrow> nat" where
  "decimal_value s = foldl (\<lambda>acc c. 10 * acc + digit_val c) 0 s"

definition is_decimal_of :: "string \<Rightarrow> nat \<Rightarrow> bool" where
  "is_decimal_of s n =
     (s \<noteq> [] \<and> list_all is_digit s \<and> (length s = 1 \<or> hd s \<noteq> CHR ''0'') \<and>
      decimal_value s = n)"

text \<open>
  The addition of two numbers that hold non-negative integers: the exact sum, rounded
  to the nearest double, a tie going to the even mantissa. Up to 53 bits the sum is
  exact; with \<open>k > 53\<close> bits the doubles are the multiples of \<open>2 ^ (k - 53)\<close>. (Sums
  from \<open>2 ^ 1024\<close> on, where a double overflows, are not modelled.)
\<close>

fun bit_length :: "nat \<Rightarrow> nat" where
  "bit_length n = (if n = 0 then 0 else Suc (bit_length (n div 2)))"

declare bit_length.simps [simp del]

definition round_double :: "nat \<Rightarrow> nat" where
  "round_double n =
     (let k = bit_length n
      in if k \<le> 53 then n
         else
           (let e = k - 53;
                q = n div 2 ^ e;
                r = n mod 2 ^ e;
                half = 2 ^ (e - 1)
            in (if half < r \<or> (r = half \<and> odd q) then q + 1 else q) * 2 ^ e))"

definition number_add :: "nat \<Rightarrow> nat \<Rightarrow> nat" where
  "number_add a b = round_double (a + b)"

text \<open>\<open>Array.prototype.join(sep)\<close> on an array of strings.\<close>

fun join_sep :: "string \<Rightarrow> string list \<Rightarrow> string" where
  "join_sep sep [] = []"
| "join_sep sep [x] = x"
| "join_sep sep (x # y # ys) = x @ sep @ join_sep sep (y # ys)"

text \<open>
  \<open>String.prototype.toLowerCase\<close>. Among the code units 0 to 255 the letters with a
  lower-case form are \<open>A\<close> to \<open>Z\<close> and the Latin-1 capitals \<open>0xC0\<close> to \<open>0xDE\<close>
  (without the multiplication sign \<open>0xD7\<close>); each maps to the code unit 32 above it,
  and every other code unit is left as it is.
\<close>

definition upper_latin1 :: string where
  "upper_latin1 =
     ''ABCDEFGHIJKLMNOPQRSTUVWXYZ'' @
     [CHR 0xC0, CHR 0xC1, CHR 0xC2, CHR 0xC3, CHR 0xC4, CHR 0xC5, CHR 0xC6,
     CHR 0xC7, CHR 0xC8, CHR 0xC9, CHR 0xCA, CHR 0xCB, CHR 0xCC, CHR 0xCD,
     CHR 0xCE, CHR 0xCF, CHR 0xD0, CHR 0xD1, CHR 0xD2, CHR 0xD3, CHR 0xD4,
     CHR 0xD5, CHR 0xD6, CHR 0xD8, CHR 0xD9, CHR 0xDA, CHR 0xDB, CHR 0xDC,
     CHR 0xDD, CHR 0xDE]"

definition lower_latin1 :: string where
  "lower_latin1 =
     ''abcdefghijklmnopqrstuvwxyz'' @
     [CHR 0xE0, CHR 0xE1, CHR 0xE2, CHR 0xE3, CHR 0xE4, CHR 0xE5, CHR 0xE6,
     CHR 0xE7, CHR 0xE8, CHR 0xE9, CHR 0xEA, CHR 0xEB, CHR 0xEC, CHR 0xED,
     CHR 0xEE, CHR 0xEF, CHR 0xF0, CHR 0xF1, CHR 0xF2, CHR 0xF3, CHR 0xF4,
     CHR 0xF5, CHR 0xF6, CHR 0xF8, CHR 0xF9, CHR 0xFA, CHR 0xFB, CHR 0xFC,
     CHR 0xFD, CHR 0xFE]"

definition lower_char :: "char \<Rightarrow> char" where
  "lower_char c =
     (case map_of (zip upper_latin1 lower_latin1) c of
        None \<Rightarrow> c
      | Some l \<Rightarrow> l)"

definition toLowerCase :: "string \<Rightarrow> string" where
  "toLowerCase s = map lower_char s"

text \<open>\<open>String.prototype.startsWith\<close> and \<open>String.prototype.includes\<close>.\<close>

fun startsWith :: "string \<Rightarrow> string \<Rightarrow> bool" where
  "startsWith s [] = True"
| "startsWith [] (p # ps) = False"
| "startsWith (c # cs) (p # ps) = (c = p \<and> startsWith cs ps)"

fun includes_str :: "string \<Rightarrow> string \<Rightarrow> bool" where
  "includes_str [] p = (p = [])"
| "includes_str (c # cs) p = (startsWith (c # cs) p \<or> includes_str cs p)"

text \<open>
  A plain object used as a dictionary, \<open>{ [key: string]: number }\<close>. The keys that
  occur are never integer-like, so \<open>Object.entries\<close> lists them in insertion order: the
  object is an association list, a write to a present key keeps its place and a write
  to a new key appends.
\<close>

type_synonym counts = "(string \<times> nat) list"

fun obj_get :: "counts \<Rightarrow> string \<Rightarrow> nat option" where
  "obj_get [] k = None"
| "obj_get ((k', v) # kvs) k = (if k' = k then Some v else obj_get kvs k)"

fun obj_set :: "string \<Rightarrow> nat \<Rightarrow> counts \<Rightarrow> counts" where
  "obj_set k v [] = [(k, v)]"
| "obj_set k v ((k', v') # kvs) = (if k' = k then (k, v) # kvs else (k', v') # obj_set k v kvs)"

text \<open>\<open>counts[k] || 0\<close>: a missing key reads as \<open>undefined\<close>, which is falsy.\<close>

definition or_zero :: "nat option \<Rightarrow> nat" where
  "or_zero r = (case r of None \<Rightarrow> 0 | Some n \<Rightarrow> n)"

text \<open>\<open>counts[k] = (counts[k] || 0) + 1\<close>; the source's \<open>counts.directories++\<close> and
  \<open>counts.files++\<close> act on keys the object literal initialises to 0, where the two
  forms agree.\<close>

definition increment :: "string \<Rightarrow> counts \<Rightarrow> counts" where
  "increment k c = obj_set k (or_zero (obj_get c k) + 1) c"

text \<open>\<open>counts.k > 0\<close>: \<open>undefined > 0\<close> is false.\<close>

definition gt_zero :: "nat option \<Rightarrow> bool" where
  "gt_zero r = (case r of None \<Rightarrow> False | Some n \<Rightarrow> 0 < n)"


section \<open>Node's path module (POSIX flavour)\<close>

text \<open>
  \<open>path.basename\<close>, \<open>path.dirname\<close>, \<open>path.extname\<close> and \<open>path.join\<close> belong to Node,
  not to the extension; they are written out here after Node's \<open>path.posix\<close> so that
  the extension's functions can be evaluated on concrete paths.
\<close>

definition is_sep :: "char \<Rightarrow> bool" where
  "is_sep c = (c = CHR ''/'')"

definition basename :: "string \<Rightarrow> string" where
  "basename p = rev (takeWhile (\<lambda>c. \<not> is_sep c) (dropWhile is_sep (rev p)))"

definition dirname :: "string \<Rightarrow> string" where
  "dirname p =
     (if p = [] then ''.''
      else
        (let hasRoot = is_sep (hd p);
             r = dropWhile (\<lambda>c. \<not> is_sep c) (dropWhile is_sep (rev (tl p)));
             endIdx = length r
         in if r = [] then (if hasRoot then ''/'' else ''.'')
            else if hasRoot \<and> endIdx = 1 then ''//''
            else take endIdx p))"

definition extname :: "string \<Rightarrow> string" where
  "extname p =
     (let b = basename p;
          upto_dot = dropWhile (\<lambda>c. c \<noteq> CHR ''.'') (rev b)
      in if upto_dot = [] \<or> length upto_dot = 1 \<or> b = ''..'' then []
         else drop (length upto_dot - 1) b)"

fun split_segments :: "string \<Rightarrow> string list" where
  "split_segments [] = [[]]"
| "split_segments (c # cs) =
     (if is_sep c then [] # split_segments cs
      else (case split_segments cs of
              [] \<Rightarrow> [[c]]
            | s # ss \<Rightarrow> (c # s) # ss))"

definition normalize_step :: "bool \<Rightarrow> string list \<Rightarrow> string \<Rightarrow> string list" where
  "normalize_step allowAboveRoot res seg =
     (if seg = [] \<or> seg = ''.'' then res
      else if seg = ''..'' then
        (if res \<noteq> [] \<and> last res \<noteq> ''..'' then butlast res
         else if allowAboveRoot then res @ [''..'']
         else res)
      else res @ [seg])"

definition normalizeString :: "string \<Rightarrow> bool \<Rightarrow> string" where
  "normalizeString p allowAboveRoot =
     join_sep ''/'' (foldl (normalize_step allowAboveRoot) [] (split_segments p))"

definition normalize_path :: "string \<Rightarrow> string" where
  "normalize_path p =
     (if p = [] then ''.''
      else
        (let isAbsolute = is_sep (hd p);
             trailingSeparator = is_sep (last p);
             q = normalizeString p (\<not> isAbsolute)
         in if q = [] then (if isAbsolute then ''/'' else if trailingSeparator then ''./'' else ''.'')
            else (if isAbsolute then ''/'' else []) @ q @ (if trailingSeparator then ''/'' else [])))"

definition path_join :: "string \<Rightarrow> string \<Rightarrow> string" where
  "path_join a b =
     (if a = [] \<and> b = [] then ''.''
      else if a = [] then normalize_path b
      else if b = [] then normalize_path a
      else normalize_path (a @ ''/'' @ b))"


section \<open>The host: file system, clock rendering and the editor's URI constructor\<close>

text \<open>
  \<open>fs.statSync\<close>, \<open>fs.readdirSync\<close> and \<open>vscode.Uri.file\<close> either return or throw;
  a throw is the \<open>Inl\<close> of a sum. The file system is a snapshot: one value of \<open>Host\<close>
  answers every call made while one row list is produced.
\<close>

datatype fs_error = ENOENT | EACCES | ENOTDIR | EINVAL

record Stats =
  isDirectory :: bool
  size_st :: nat
  mode :: nat
  birthtime :: nat
  mtime :: nat

record Uri =
  fsPath :: string

record Host =
  readdirSync :: "string \<Rightarrow> fs_error + string list"
  statSync :: "string \<Rightarrow> fs_error + Stats"
  existsSync :: "string \<Rightarrow> bool"
  toLocaleString :: "nat \<Rightarrow> string"
  Uri_file :: "string \<Rightarrow> fs_error + Uri"


section \<open>The extension\<close>

subsection \<open>DirectoryItem\<close>

datatype TreeItemCollapsibleState = Collapsible_None | Collapsed | Expanded

record DirectoryItem =
  label :: string
  collapsibleState :: TreeItemCollapsibleState
  fullPath :: "string option"
  contextValue :: "string option"
  tooltip :: "string option"
  description :: "string option"

text \<open>\<open>formatPath\<close>: \<open>maxLength / 2 - 3\<close> is 17.\<close>

definition maxLength :: nat where
  "maxLength = 40"

definition formatPath :: "string \<Rightarrow> string" where
  "formatPath filePath =
     (if length filePath \<le> maxLength then filePath
      else
        (let start = take (maxLength div 2 - 3) filePath;
             ending = drop (length filePath - (maxLength div 2 - 3)) filePath
         in start @ ''...'' @ ending))"

text \<open>A JavaScript string is truthy when it is present and not empty.\<close>

definition truthy :: "string option \<Rightarrow> bool" where
  "truthy s = (case s of None \<Rightarrow> False | Some t \<Rightarrow> t \<noteq> [])"

text \<open>The constructor of \<open>DirectoryItem\<close>.\<close>

definition new_DirectoryItem ::
  "string \<Rightarrow> TreeItemCollapsibleState \<Rightarrow> string option \<Rightarrow> string option \<Rightarrow> DirectoryItem" where
  "new_DirectoryItem lbl cs fp cv =
     \<lparr> label = lbl, collapsibleState = cs, fullPath = fp, contextValue = cv,
       tooltip = (if truthy fp then fp else None),
       description =
         (case fp of
            None \<Rightarrow> None
          | Some p \<Rightarrow>
              if p = [] then None
              else (let dirName = dirname p in
                    if dirName \<noteq> ''.'' then Some (formatPath dirName) else None)) \<rparr>"

text \<open>A row with a label only.\<close>

definition info_row :: "string \<Rightarrow> DirectoryItem" where
  "info_row lbl = new_DirectoryItem lbl Collapsible_None None None"

subsection \<open>countFileTypes\<close>

text \<open>One turn of the loop over the listing: the inner \<open>try\<close> skips an entry whose
  \<open>statSync\<close> throws.\<close>

definition count_entry :: "Host \<Rightarrow> string \<Rightarrow> counts \<Rightarrow> string \<Rightarrow> counts" where
  "count_entry h directoryPath cnts file =
     (case statSync h (path_join directoryPath file) of
        Inl e \<Rightarrow> cnts
      | Inr stats \<Rightarrow>
          if isDirectory stats then increment ''directories'' cnts
          else
            (let cnts1 = increment ''files'' cnts;
                 ext = toLowerCase (extname file)
             in if ext \<noteq> [] then increment ext cnts1
                else increment ''no-extension'' cnts1))"

definition countFileTypes :: "Host \<Rightarrow> string \<Rightarrow> counts" where
  "countFileTypes h directoryPath =
     (case readdirSync h directoryPath of
        Inl e \<Rightarrow> [(''error'', 1)]
      | Inr files \<Rightarrow>
          foldl (count_entry h directoryPath) [(''directories'', 0), (''files'', 0)] files)"

text \<open>
  The branch conditions of that loop body, named for the statements about it: the entry
  is counted as a directory, the entry is counted as a file, and the key under which a
  file is counted.
\<close>

definition is_dir_entry :: "Host \<Rightarrow> string \<Rightarrow> string \<Rightarrow> bool" where
  "is_dir_entry h directoryPath file =
     (case statSync h (path_join directoryPath file) of
        Inl e \<Rightarrow> False
      | Inr stats \<Rightarrow> isDirectory stats)"

definition is_file_entry :: "Host \<Rightarrow> string \<Rightarrow> string \<Rightarrow> bool" where
  "is_file_entry h directoryPath file =
     (case statSync h (path_join directoryPath file) of
        Inl e \<Rightarrow> False
      | Inr stats \<Rightarrow> \<not> isDirectory stats)"

definition bucket_key :: "string \<Rightarrow> string" where
  "bucket_key file =
     (let ext = toLowerCase (extname file)
      in if ext \<noteq> [] then ext else ''no-extension'')"

text \<open>What one listed entry adds to the count under key \<open>k\<close>.\<close>

definition tally :: "Host \<Rightarrow> string \<Rightarrow> string \<Rightarrow> string \<Rightarrow> nat" where
  "tally h d k f =
     (if is_dir_entry h d f then (if k = ''directories'' then 1 else 0)
      else if is_file_entry h d f then
        (if k = ''files'' then 1 else 0) + (if k = bucket_key f then 1 else 0)
      else 0)"

subsection \<open>formatSize\<close>

text \<open>
  \<open>(bytes / d).toFixed(1)\<close> for a quotient that the double holds exactly: the integer
  \<open>n\<close> with \<open>n / 10\<close> nearest to the quotient, the larger one on a tie, printed with one
  digit after the point. (\<open>toFixed\<close> prints differently from \<open>10^21\<close> on, beyond every
  byte count.)
\<close>

definition toFixed1 :: "nat \<Rightarrow> nat \<Rightarrow> string" where
  "toFixed1 bytes d =
     (let n = (20 * bytes + d) div (2 * d)
      in show_nat (n div 10) @ ''.'' @ show_nat (n mod 10))"

definition formatSize :: "nat \<Rightarrow> string" where
  "formatSize bytes =
     (if bytes < 1024 then show_nat bytes @ '' bytes''
      else if bytes < 1024 * 1024 then toFixed1 bytes 1024 @ '' KB''
      else if bytes < 1024 * 1024 * 1024 then toFixed1 bytes (1024 * 1024) @ '' MB''
      else toFixed1 bytes (1024 * 1024 * 1024) @ '' GB'')"

subsection \<open>calculateDirSize\<close>

text \<open>One turn of the loop: both branches of \<open>stats.isDirectory()\<close> add \<open>stats.size\<close>,
  and \<open>+=\<close> is the addition of two numbers.\<close>

definition size_entry :: "Host \<Rightarrow> string \<Rightarrow> nat \<Rightarrow> string \<Rightarrow> nat" where
  "size_entry h dirPath totalSize file =
     (case statSync h (path_join dirPath file) of
        Inl e \<Rightarrow> totalSize
      | Inr stats \<Rightarrow>
          if isDirectory stats then number_add totalSize (size_st stats)
          else number_add totalSize (size_st stats))"

definition calculateDirSize :: "Host \<Rightarrow> string \<Rightarrow> nat" where
  "calculateDirSize h dirPath =
     (case readdirSync h dirPath of
        Inl e \<Rightarrow> 0
      | Inr files \<Rightarrow> foldl (size_entry h dirPath) 0 files)"

subsection \<open>SelectedItemProvider\<close>

text \<open>The provider's fields, and the number of times \<open>onDidChangeTreeData\<close> has
  fired.\<close>

record SelectedItemProvider =
  workspaceRoot :: "string option"
  currentSelection :: "Uri option"
  fired :: nat

definition new_SelectedItemProvider :: "string option \<Rightarrow> SelectedItemProvider" where
  "new_SelectedItemProvider root = \<lparr> workspaceRoot = root, currentSelection = None, fired = 0 \<rparr>"

definition refresh :: "Uri option \<Rightarrow> SelectedItemProvider \<Rightarrow> SelectedItemProvider" where
  "refresh selection st = st \<lparr> currentSelection := selection, fired := fired st + 1 \<rparr>"

text \<open>The two optional count rows shared by both branches of \<open>getChildren\<close>.\<close>

definition count_rows :: "counts \<Rightarrow> DirectoryItem list" where
  "count_rows cnts =
     (if gt_zero (obj_get cnts ''directories'')
      then [info_row (''Subdirectories: '' @ show_nat (or_zero (obj_get cnts ''directories'')))]
      else [])
     @ (if gt_zero (obj_get cnts ''files'')
        then [info_row (''Files: '' @ show_nat (or_zero (obj_get cnts ''files'')))]
        else [])"

text \<open>
  \<open>Object.entries(counts).filter(...).sort((a, b) => b[1] - a[1]).slice(0, 3)\<close>.
  \<open>Array.prototype.sort\<close> is stable, so the comparator \<open>b[1] - a[1]\<close> orders by
  descending count and keeps entries of equal count in their order.
\<close>

definition reserved_keys :: "string list" where
  "reserved_keys = [''directories'', ''files'', ''no-extension'', ''error'']"

definition sort_desc :: "counts \<Rightarrow> counts" where
  "sort_desc es = sort_key (\<lambda>e. - int (snd e)) es"

definition top_extensions :: "counts \<Rightarrow> counts" where
  "top_extensions cnts =
     take 3 (sort_desc (filter (\<lambda>e. fst e \<notin> set reserved_keys) cnts))"

definition extensionSummary :: "counts \<Rightarrow> string" where
  "extensionSummary extensions =
     join_sep '', '' (map (\<lambda>e. drop 1 (fst e) @ '': '' @ show_nat (snd e)) extensions)"

definition common_rows :: "counts \<Rightarrow> DirectoryItem list" where
  "common_rows cnts =
     (let extensions = top_extensions cnts
      in if 0 < length extensions
         then [info_row (''Common types: '' @ extensionSummary extensions)]
         else [])"

text \<open>The inner \<open>try\<close> of the directory branch: \<open>readdirSync\<close> is its first statement,
  and its \<open>catch\<close> appends one row.\<close>

definition directory_rows :: "Host \<Rightarrow> string \<Rightarrow> DirectoryItem list" where
  "directory_rows h p =
     (case readdirSync h p of
        Inl e \<Rightarrow> [info_row ''Error reading directory contents'']
      | Inr files \<Rightarrow>
          (let cnts = countFileTypes h p
           in [info_row (''Contains: '' @ show_nat (length files) @ '' items'')]
              @ count_rows cnts @ common_rows cnts))"

text \<open>The branch for a held selection: \<open>statSync\<close> is the first statement of the outer
  \<open>try\<close>, so when it throws no row has been pushed and the \<open>catch\<close> appends one.\<close>

definition selection_rows :: "Host \<Rightarrow> string \<Rightarrow> DirectoryItem list" where
  "selection_rows h p =
     (case statSync h p of
        Inl e \<Rightarrow> [info_row ''Error reading file information'']
      | Inr stats \<Rightarrow>
          (let itemName = basename p;
               itemType = (if isDirectory stats then ''Directory'' else ''File'');
               ctx = (if isDirectory stats then ''directory'' else ''file'');
               common =
                 [new_DirectoryItem (itemType @ '': '' @ itemName) Collapsible_None (Some p) (Some ctx),
                  info_row (''Created: '' @ toLocaleString h (birthtime stats)),
                  info_row (''Modified: '' @ toLocaleString h (mtime stats)),
                  info_row (''Permissions: '' @ show_radix 8 (mode stats mod 512))]
           in if \<not> isDirectory stats then
                common @ [info_row (''Size: '' @ formatSize (size_st stats))]
                @ (let extension = extname itemName
                   in if extension \<noteq> [] then [info_row (''Type: '' @ drop 1 extension)] else [])
              else
                common
                @ [info_row (''Size (approx): '' @ formatSize (calculateDirSize h p))]
                @ directory_rows h p))"

text \<open>The branch for no selection and a workspace root; a listing that cannot be read
  is ignored by an empty \<open>catch\<close>.\<close>

definition workspace_rows :: "Host \<Rightarrow> string \<Rightarrow> DirectoryItem list" where
  "workspace_rows h root =
     new_DirectoryItem (''Workspace: '' @ basename root) Collapsible_None (Some root)
       (Some ''directory'')
     # (case readdirSync h root of
          Inl e \<Rightarrow> []
        | Inr files \<Rightarrow>
            info_row (''Root contains: '' @ show_nat (length files) @ '' items'')
            # count_rows (countFileTypes h root))"

definition getChildren ::
  "Host \<Rightarrow> SelectedItemProvider \<Rightarrow> DirectoryItem option \<Rightarrow> DirectoryItem list" where
  "getChildren h st element =
     (case element of
        Some el \<Rightarrow> []
      | None \<Rightarrow>
          (case currentSelection st of
             Some sel \<Rightarrow> selection_rows h (fsPath sel)
           | None \<Rightarrow>
               if truthy (workspaceRoot st) then workspace_rows h (the (workspaceRoot st))
               else [info_row ''No workspace or selection'']))"

subsection \<open>The clipboard heuristic of activate\<close>

text \<open>The callback that receives the clipboard text after \<open>copyFilePath\<close> has run.\<close>

definition on_clipboard_text :: "Host \<Rightarrow> string \<Rightarrow> SelectedItemProvider \<Rightarrow> SelectedItemProvider" where
  "on_clipboard_text h text st =
     (if text \<noteq> [] \<and> (startsWith text ''/'' \<or> includes_str text '':/'') then
        (case Uri_file h text of
           Inl e \<Rightarrow> st
         | Inr uri \<Rightarrow> if existsSync h (fsPath uri) then refresh (Some uri) st else st)
      else st)"

section \<open>A concrete host for evaluating the extension\<close>

text \<open>
  A small file system: \<open>/proj\<close> holds two text files, a markdown file and a
  subdirectory; \<open>/proj/sub\<close> lists an entry whose \<open>statSync\<close> throws; \<open>/locked\<close> is a
  directory whose listing cannot be read; \<open>/many\<close> holds files of four extensions;
  \<open>/logs\<close> holds eleven log files, two files whose extension is the letter E with an
  acute accent, once as the capital \<open>0xC9\<close> and once as the small \<open>0xE9\<close>, and two
  more; nothing else exists.
\<close>

definition dir_stats :: Stats where
  "dir_stats = \<lparr> isDirectory = True, size_st = 4096, mode = 16877, birthtime = 1, mtime = 2 \<rparr>"

definition file_stats :: "nat \<Rightarrow> Stats" where
  "file_stats n = \<lparr> isDirectory = False, size_st = n, mode = 33188, birthtime = 1, mtime = 2 \<rparr>"

definition logs_listing :: "string list" where
  "logs_listing =
     [''a'' @ [CHR ''.'', CHR 0xC9], ''01.log'', ''02.log'', ''03.LOG'', ''04.log'', ''05.log'',
      ''06.log'', ''b'' @ [CHR ''.'', CHR 0xE9], ''07.Log'', ''08.log'', ''09.log'', ''10.log'',
      ''11.log'', ''x.c'', ''y.h'']"

definition demo_stat :: "string \<Rightarrow> fs_error + Stats" where
  "demo_stat p =
     (if p = ''/proj'' then Inr dir_stats
      else if p = ''/proj/a.txt'' then Inr (file_stats 10)
      else if p = ''/proj/b.txt'' then Inr (file_stats 2000)
      else if p = ''/proj/c.md'' then Inr (file_stats 5)
      else if p = ''/proj/sub'' then Inr dir_stats
      else if p = ''/proj/sub/README'' then Inr (file_stats 700)
      else if p = ''/proj/sub/x.TXT'' then Inr (file_stats 300)
      else if p = ''/locked'' then Inr dir_stats
      else if p = ''/many'' then Inr dir_stats
      else if p \<in> set [''/many/a.c'', ''/many/b.h'', ''/many/c.py'', ''/many/d.PY'', ''/many/e.rs'']
        then Inr (file_stats 100)
      else if p = ''/logs'' then Inr dir_stats
      else if p \<in> set (map (\<lambda>name. ''/logs/'' @ name) logs_listing) then Inr (file_stats 1)
      else Inl ENOENT)"

definition demo_readdir :: "string \<Rightarrow> fs_error + string list" where
  "demo_readdir p =
     (if p = ''/proj'' then Inr [''a.txt'', ''b.txt'', ''c.md'', ''sub'']
      else if p = ''/proj/sub'' then Inr [''README'', ''x.TXT'', ''lost'']
      else if p = ''/locked'' then Inl EACCES
      else if p = ''/many'' then Inr [''a.c'', ''b.h'', ''c.py'', ''d.PY'', ''e.rs'']
      else if p = ''/logs'' then Inr logs_listing
      else Inl ENOENT)"

definition demo_host :: Host where
  "demo_host =
     \<lparr> readdirSync = demo_readdir,
       statSync = demo_stat,
       existsSync = (\<lambda>p. case demo_stat p of Inl e \<Rightarrow> False | Inr s \<Rightarrow> True),
       toLocaleString = show_nat,
       Uri_file = (\<lambda>t. Inr \<lparr> fsPath = t \<rparr>) \<rparr>"

definition selecting :: "string \<Rightarrow> SelectedItemProvider" where
  "selecting p = refresh (Some \<lparr> fsPath = p \<rparr>) (new_SelectedItemProvider None)"

definition long_path :: string where
  "long_path = ''/home/user/projects/codelens/src/test/fixtures''"


section \<open>Evaluation rules\<close>

lemma demo_host_fields:
  "readdirSync demo_host = demo_readdir"
  "statSync demo_host = demo_stat"
  "existsSync demo_host p = (case demo_stat p of Inl e \<Rightarrow> False | Inr s \<Rightarrow> True)"
  "toLocaleString demo_host = show_nat"
  "Uri_file demo_host t = Inr \<lparr> fsPath = t \<rparr>"
  by (simp_all add: demo_host_def)

lemmas demo_defs = demo_host_fields demo_stat_def demo_readdir_def dir_stats_def file_stats_def
  logs_listing_def selecting_def refresh_def new_SelectedItemProvider_def

lemmas path_defs = path_join_def normalize_path_def normalizeString_def normalize_step_def
  is_sep_def basename_def dirname_def extname_def

lemmas show_defs = show_nat_def show_radix.simps digit_char_def

lemmas lower_defs = toLowerCase_def lower_char_def upper_latin1_def lower_latin1_def


section \<open>Path truncation\<close>

text \<open>
  Claim C5. A path of at most 40 characters is returned unchanged by \<open>formatPath\<close>; a
  longer one becomes its first 17 characters, then \<open>...\<close>, then its last 17
  characters, 17 + 3 + 17 characters in all.
\<close>

theorem formatPath_truncation:
  "(length p \<le> 40 \<longrightarrow> formatPath p = p) \<and>
   (40 < length p \<longrightarrow>
      formatPath p = take 17 p @ ''...'' @ drop (length p - 17) p \<and>
      length (formatPath p) = 17 + 3 + 17)"
  by (simp add: formatPath_def maxLength_def Let_def)

theorem formatPath_truncation_witness:
  "length ''/proj'' \<le> 40 \<and> formatPath ''/proj'' = ''/proj'' \<and>
   40 < length long_path \<and>
   formatPath long_path = ''/home/user/projec...src/test/fixtures'' \<and>
   length (formatPath long_path) = 37"
  using formatPath_truncation [of "''/proj''"] formatPath_truncation [of long_path]
  by (simp add: long_path_def)


section \<open>The selection state\<close>

text \<open>
  Claim C6. From any provider state, \<open>refresh(pathA)\<close> followed by \<open>refresh(pathB)\<close>
  leaves the selection at \<open>pathB\<close>, and the resulting state is the same whatever the
  first call selected; \<open>refresh()\<close> without an argument leaves no selection.
\<close>

theorem refresh_replaces_selection:
  "currentSelection (refresh (Some pathB) (refresh (Some pathA) st)) = Some pathB \<and>
   refresh (Some pathB) (refresh (Some pathA) st) = refresh (Some pathB) (refresh prior st) \<and>
   currentSelection (refresh None st) = None"
  by (simp add: refresh_def)


section \<open>A selection that cannot be stat'ed\<close>

text \<open>
  Claim C1. When \<open>statSync\<close> throws on the selected path, \<open>getChildren\<close> returns
  exactly one row, a plain row whose label is \<open>Error reading file information\<close>: the
  throw is caught and a row list is returned.
\<close>

theorem stat_failure_one_row:
  assumes "currentSelection st = Some sel" and "statSync h (fsPath sel) = Inl e"
  shows "getChildren h st None = [info_row ''Error reading file information''] \<and>
         map label (getChildren h st None) = [''Error reading file information''] \<and>
         map fullPath (getChildren h st None) = [None] \<and>
         map description (getChildren h st None) = [None]"
  using assms
  by (simp add: getChildren_def selection_rows_def info_row_def new_DirectoryItem_def truthy_def)

theorem stat_failure_one_row_witness:
  "currentSelection (selecting ''/missing'') = Some \<lparr> fsPath = ''/missing'' \<rparr> \<and>
   statSync demo_host ''/missing'' = Inl ENOENT \<and>
   map label (getChildren demo_host (selecting ''/missing'') None) =
     [''Error reading file information''] \<and>
   length (getChildren demo_host (selecting ''/missing'') None) = 1"
  using stat_failure_one_row [of "selecting ''/missing''" "\<lparr> fsPath = ''/missing'' \<rparr>"
      demo_host ENOENT]
  by (simp add: demo_defs info_row_def new_DirectoryItem_def truthy_def)




section \<open>The approximate size of a directory\<close>

text \<open>Within 53 bits the addition of two numbers is the exact sum; beyond, it rounds.\<close>

lemma bit_length_le: "n < 2 ^ k \<Longrightarrow> bit_length n \<le> k"
proof (induction k arbitrary: n)
  case 0
  then show ?case by (simp add: bit_length.simps)
next
  case (Suc k)
  show ?case
  proof (cases "n = 0")
    case True
    then show ?thesis by (simp add: bit_length.simps)
  next
    case False
    from Suc.prems have "n div 2 < 2 ^ k" by simp
    then have "bit_length (n div 2) \<le> k" by (rule Suc.IH)
    with False show ?thesis by (simp add: bit_length.simps [of n])
  qed
qed

lemma round_double_exact:
  assumes "n \<le> 9007199254740991"
  shows "round_double n = n"
proof -
  have "n < 2 ^ 53" using assms by simp
  then have "bit_length n \<le> 53" by (rule bit_length_le)
  then show ?thesis by (simp add: round_double_def)
qed

lemma number_add_exact:
  "a + b \<le> 9007199254740991 \<Longrightarrow> number_add a b = a + b"
  by (simp add: number_add_def round_double_exact)

lemma number_add_rounds:
  "number_add 9007199254740992 1 = 9007199254740992"
  "number_add 9007199254740992 3 = 9007199254740996"
  "number_add 9007199254740992 2 = 9007199254740994"
  by (simp_all add: number_add_def round_double_def bit_length.simps Let_def)

lemma foldl_size_entry:
  assumes "acc + sum_list (map (\<lambda>f. case statSync h (path_join d f) of
                                Inl e \<Rightarrow> 0 | Inr s \<Rightarrow> size_st s) files) \<le> 9007199254740991"
  shows "foldl (size_entry h d) acc files =
     acc + sum_list (map (\<lambda>f. case statSync h (path_join d f) of
                                Inl e \<Rightarrow> 0 | Inr s \<Rightarrow> size_st s) files)"
  using assms
proof (induction files arbitrary: acc)
  case Nil
  then show ?case by simp
next
  case (Cons f files)
  let ?own = "case statSync h (path_join d f) of Inl e \<Rightarrow> 0 | Inr s \<Rightarrow> size_st s"
  let ?rest = "sum_list (map (\<lambda>f. case statSync h (path_join d f) of
                                Inl e \<Rightarrow> 0 | Inr s \<Rightarrow> size_st s) files)"
  from Cons.prems have bound: "acc + ?own + ?rest \<le> 9007199254740991"
    by (simp add: add.assoc)
  then have "acc + ?own \<le> 9007199254740991" by linarith
  then have step: "size_entry h d acc f = acc + ?own"
    by (auto simp: size_entry_def number_add_exact split: sum.splits)
  have "foldl (size_entry h d) (acc + ?own) files = acc + ?own + ?rest"
    using bound by (rule Cons.IH)
  with step show ?case by (simp add: add.assoc)
qed

text \<open>
  Claim C7. For a directory with listing \<open>files\<close>, \<open>calculateDirSize\<close> is the sum over
  the listed entries of the \<open>size\<close> field that \<open>statSync\<close> reports for the entry
  itself (a subdirectory counts with its own size field, nothing below it is visited);
  an entry whose \<open>statSync\<close> throws adds nothing. The sum is the exact one as long as
  it stays within the integers a number holds exactly, that is at most \<open>2^53 - 1\<close>.
\<close>

theorem calculateDirSize_sum:
  assumes "readdirSync h d = Inr files"
    and "sum_list (map (\<lambda>f. case statSync h (path_join d f) of
                               Inl e \<Rightarrow> 0 | Inr s \<Rightarrow> size_st s) files) \<le> 9007199254740991"
  shows "calculateDirSize h d =
           sum_list (map (\<lambda>f. case statSync h (path_join d f) of
                                 Inl e \<Rightarrow> 0 | Inr s \<Rightarrow> size_st s) files)"
  using assms foldl_size_entry [of 0 h d files] by (simp add: calculateDirSize_def)

theorem calculateDirSize_sum_witness:
  "readdirSync demo_host ''/proj'' = Inr [''a.txt'', ''b.txt'', ''c.md'', ''sub''] \<and>
   sum_list (map (\<lambda>f. case statSync demo_host (path_join ''/proj'' f) of
                        Inl e \<Rightarrow> 0 | Inr s \<Rightarrow> size_st s)
               [''a.txt'', ''b.txt'', ''c.md'', ''sub'']) \<le> (9007199254740991 :: nat) \<and>
   calculateDirSize demo_host ''/proj'' = 6111 \<and>
   readdirSync demo_host ''/proj/sub'' = Inr [''README'', ''x.TXT'', ''lost''] \<and>
   sum_list (map (\<lambda>f. case statSync demo_host (path_join ''/proj/sub'' f) of
                        Inl e \<Rightarrow> 0 | Inr s \<Rightarrow> size_st s)
               [''README'', ''x.TXT'', ''lost'']) \<le> (9007199254740991 :: nat) \<and>
   calculateDirSize demo_host ''/proj/sub'' = 1000"
proof -
  have rd1: "readdirSync demo_host ''/proj'' = Inr [''a.txt'', ''b.txt'', ''c.md'', ''sub'']"
    and rd2: "readdirSync demo_host ''/proj/sub'' = Inr [''README'', ''x.TXT'', ''lost'']"
    by (simp_all add: demo_defs)
  have sum1: "sum_list (map (\<lambda>f. case statSync demo_host (path_join ''/proj'' f) of
                        Inl e \<Rightarrow> 0 | Inr s \<Rightarrow> size_st s)
               [''a.txt'', ''b.txt'', ''c.md'', ''sub'']) = 6111"
    and sum2: "sum_list (map (\<lambda>f. case statSync demo_host (path_join ''/proj/sub'' f) of
                        Inl e \<Rightarrow> 0 | Inr s \<Rightarrow> size_st s)
               [''README'', ''x.TXT'', ''lost'']) = 1000"
    by (simp_all add: demo_defs path_defs)
  have size1: "calculateDirSize demo_host ''/proj'' = 6111"
    using calculateDirSize_sum [OF rd1] sum1 by simp
  have size2: "calculateDirSize demo_host ''/proj/sub'' = 1000"
    using calculateDirSize_sum [OF rd2] sum2 by simp
  from rd1 rd2 sum1 sum2 size1 size2 show ?thesis by simp
qed



lemma formatSize_zero: "formatSize 0 = ''0 bytes''"
  by (simp add: formatSize_def show_defs)

text \<open>
  Claim C10. When the listing of a directory cannot be read, \<open>calculateDirSize\<close>
  returns 0; if the directory itself can be stat'ed, the row list of a selection on it
  carries the row \<open>Size (approx): 0 bytes\<close>, and the failure shows only in the separate
  last row.
\<close>

theorem unreadable_listing_size_zero:
  assumes "readdirSync h p = Inl e"
  shows "calculateDirSize h p = 0 \<and>
         (currentSelection st = Some sel \<and> fsPath sel = p \<and> statSync h p = Inr s \<and>
          isDirectory s \<longrightarrow>
            getChildren h st None =
              [new_DirectoryItem (''Directory: '' @ basename p) Collapsible_None (Some p)
                 (Some ''directory''),
               info_row (''Created: '' @ toLocaleString h (birthtime s)),
               info_row (''Modified: '' @ toLocaleString h (mtime s)),
               info_row (''Permissions: '' @ show_radix 8 (mode s mod 512)),
               info_row ''Size (approx): 0 bytes'',
               info_row ''Error reading directory contents''])"
proof -
  have zero: "calculateDirSize h p = 0"
    using assms by (simp add: calculateDirSize_def)
  have rows: "directory_rows h p = [info_row ''Error reading directory contents'']"
    using assms by (simp add: directory_rows_def)
  show ?thesis
    using zero rows by (auto simp: getChildren_def selection_rows_def formatSize_zero)
qed

theorem unreadable_listing_size_zero_witness:
  "readdirSync demo_host ''/locked'' = Inl EACCES \<and>
   calculateDirSize demo_host ''/locked'' = 0 \<and>
   currentSelection (selecting ''/locked'') = Some \<lparr> fsPath = ''/locked'' \<rparr> \<and>
   statSync demo_host ''/locked'' = Inr dir_stats \<and> isDirectory dir_stats \<and>
   map label (getChildren demo_host (selecting ''/locked'') None) =
     [''Directory: locked'', ''Created: 1'', ''Modified: 2'', ''Permissions: 755'',
      ''Size (approx): 0 bytes'', ''Error reading directory contents'']"
  using unreadable_listing_size_zero [of demo_host "''/locked''" EACCES "selecting ''/locked''"
      "\<lparr> fsPath = ''/locked'' \<rparr>" dir_stats]
  by (simp add: demo_defs path_defs show_defs info_row_def new_DirectoryItem_def)


section \<open>Size formatting\<close>

subsection \<open>The printer writes decimal numerals\<close>

lemma digit_char_decimal:
  assumes "d < 10"
  shows "is_digit (digit_char d)" and "digit_val (digit_char d) = d"
    and "digit_char d = CHR ''0'' \<longleftrightarrow> d = 0"
proof -
  from assms have "d = 0 \<or> d = 1 \<or> d = 2 \<or> d = 3 \<or> d = 4 \<or> d = 5 \<or> d = 6 \<or> d = 7 \<or>
      d = 8 \<or> d = 9"
    by arith
  then show "is_digit (digit_char d)" and "digit_val (digit_char d) = d"
    and "digit_char d = CHR ''0'' \<longleftrightarrow> d = 0"
    by (auto simp: digit_char_def is_digit_def digit_val_def)
qed

lemma decimal_value_snoc:
  "decimal_value (s @ [c]) = 10 * decimal_value s + digit_val c"
  by (simp add: decimal_value_def)

lemma show_radix_10_shape:
  "show_radix 10 n \<noteq> [] \<and> list_all is_digit (show_radix 10 n) \<and>
   decimal_value (show_radix 10 n) = n \<and>
   (0 < n \<longrightarrow> hd (show_radix 10 n) \<noteq> CHR ''0'') \<and>
   (n < 10 \<longrightarrow> length (show_radix 10 n) = 1)"
proof (induction n rule: less_induct)
  case (less n)
  show ?case
  proof (cases "n < 10")
    case True
    then have "show_radix 10 n = [digit_char n]"
      by (simp add: show_radix.simps [of 10 n])
    with True show ?thesis
      using digit_char_decimal [of n] by (simp add: decimal_value_def)
  next
    case False
    then have unfold: "show_radix 10 n = show_radix 10 (n div 10) @ [digit_char (n mod 10)]"
      by (simp add: show_radix.simps [of 10 n])
    from False have "n div 10 < n" and pos: "0 < n div 10"
      by (simp_all add: div_greater_zero_iff)
    then have ih: "show_radix 10 (n div 10) \<noteq> [] \<and> list_all is_digit (show_radix 10 (n div 10)) \<and>
        decimal_value (show_radix 10 (n div 10)) = n div 10 \<and>
        hd (show_radix 10 (n div 10)) \<noteq> CHR ''0''"
      using less.IH [of "n div 10"] by simp
    have last_digit: "is_digit (digit_char (n mod 10))" "digit_val (digit_char (n mod 10)) = n mod 10"
      using digit_char_decimal [of "n mod 10"] by simp_all
    from ih last_digit False show ?thesis
      by (simp add: unfold decimal_value_snoc)
  qed
qed

lemma show_nat_decimal: "is_decimal_of (show_nat n) n"
proof (cases "n < 10")
  case True
  then show ?thesis
    using show_radix_10_shape [of n] by (simp add: is_decimal_of_def show_nat_def)
next
  case False
  then have "0 < n" by simp
  then show ?thesis
    using show_radix_10_shape [of n] by (simp add: is_decimal_of_def show_nat_def)
qed

text \<open>\<open>toFixed1\<close> prints the tenth nearest to the quotient, the upper one on a tie: the
  decimal numeral of the integer part, a point and one decimal digit.\<close>

lemma toFixed1_shape:
  assumes "0 < d"
  shows "\<exists>n ip c. toFixed1 b d = ip @ ''.'' @ [c] \<and>
           is_decimal_of ip (n div 10) \<and> is_decimal_of [c] (n mod 10) \<and>
           2 * d * n \<le> 20 * b + d \<and> 20 * b + d < 2 * d * (n + 1)"
proof -
  define n where "n = (20 * b + d) div (2 * d)"
  have "show_nat (n mod 10) = [digit_char (n mod 10)]"
    by (simp add: show_nat_def show_radix.simps [of 10 "n mod 10"])
  then have shape: "toFixed1 b d = show_nat (n div 10) @ ''.'' @ [digit_char (n mod 10)]"
    and frac: "is_decimal_of [digit_char (n mod 10)] (n mod 10)"
    using show_nat_decimal [of "n mod 10"] by (simp_all add: toFixed1_def n_def Let_def)
  have int_part: "is_decimal_of (show_nat (n div 10)) (n div 10)"
    by (rule show_nat_decimal)
  have low: "2 * d * n \<le> 20 * b + d"
    unfolding n_def by simp
  have high: "20 * b + d < 2 * d * (n + 1)"
    unfolding n_def using assms
    by (metis Suc_eq_plus1 dividend_less_times_div mult_Suc_right add.commute mult_pos_pos
        zero_less_numeral)
  from shape frac int_part low high show ?thesis by blast
qed

lemma formatSize_examples:
  "formatSize 1023 = ''1023 bytes''" "formatSize 1024 = ''1.0 KB''"
  "formatSize 1536 = ''1.5 KB''" "formatSize 1048575 = ''1024.0 KB''"
  "formatSize 5242880 = ''5.0 MB''" "formatSize 1610612736 = ''1.5 GB''"
  by (simp_all add: formatSize_def toFixed1_def show_defs)

text \<open>
  Claim C4. For a byte count \<open>b\<close> (an integer that a JavaScript number holds exactly,
  so at most \<open>2^53 - 1\<close>), \<open>formatSize b\<close> is the decimal numeral of \<open>b\<close> followed by
  \<open>bytes\<close> when \<open>b < 1024\<close>; and it is the decimal numeral of an integer part, a
  point, exactly one decimal digit and the unit, which is \<open>KB\<close> when
  \<open>1024 \<le> b < 1048576\<close>, \<open>MB\<close> when \<open>1048576 \<le> b < 1073741824\<close>, and \<open>GB\<close> from there
  on. Integer part and digit are those of \<open>n / 10\<close>, the tenth nearest to \<open>b\<close> divided
  by 1024, by 1024 * 1024 or by 1024 * 1024 * 1024 (the upper tenth on a tie).
\<close>

theorem formatSize_ranges:
  assumes "b \<le> 9007199254740991"
  shows
  "(b < 1024 \<longrightarrow> (\<exists>s. formatSize b = s @ '' bytes'' \<and> is_decimal_of s b)) \<and>
   (1024 \<le> b \<and> b < 1048576 \<longrightarrow>
      (\<exists>n ip c. formatSize b = ip @ ''.'' @ [c] @ '' KB'' \<and>
           is_decimal_of ip (n div 10) \<and> is_decimal_of [c] (n mod 10) \<and>
           2 * 1024 * n \<le> 20 * b + 1024 \<and> 20 * b + 1024 < 2 * 1024 * (n + 1))) \<and>
   (1048576 \<le> b \<and> b < 1073741824 \<longrightarrow>
      (\<exists>n ip c. formatSize b = ip @ ''.'' @ [c] @ '' MB'' \<and>
           is_decimal_of ip (n div 10) \<and> is_decimal_of [c] (n mod 10) \<and>
           2 * 1048576 * n \<le> 20 * b + 1048576 \<and> 20 * b + 1048576 < 2 * 1048576 * (n + 1))) \<and>
   (1073741824 \<le> b \<longrightarrow>
      (\<exists>n ip c. formatSize b = ip @ ''.'' @ [c] @ '' GB'' \<and>
           is_decimal_of ip (n div 10) \<and> is_decimal_of [c] (n mod 10) \<and>
           2 * 1073741824 * n \<le> 20 * b + 1073741824 \<and>
           20 * b + 1073741824 < 2 * 1073741824 * (n + 1)))"
proof -
  have kb: "1024 \<le> b \<and> b < 1048576 \<longrightarrow>
      (\<exists>n ip c. formatSize b = ip @ ''.'' @ [c] @ '' KB'' \<and>
           is_decimal_of ip (n div 10) \<and> is_decimal_of [c] (n mod 10) \<and>
           2 * 1024 * n \<le> 20 * b + 1024 \<and> 20 * b + 1024 < 2 * 1024 * (n + 1))"
    using toFixed1_shape [of 1024 b] by (auto simp: formatSize_def)
  have mb: "1048576 \<le> b \<and> b < 1073741824 \<longrightarrow>
      (\<exists>n ip c. formatSize b = ip @ ''.'' @ [c] @ '' MB'' \<and>
           is_decimal_of ip (n div 10) \<and> is_decimal_of [c] (n mod 10) \<and>
           2 * 1048576 * n \<le> 20 * b + 1048576 \<and> 20 * b + 1048576 < 2 * 1048576 * (n + 1))"
    using toFixed1_shape [of 1048576 b] by (auto simp: formatSize_def)
  have gb: "1073741824 \<le> b \<longrightarrow>
      (\<exists>n ip c. formatSize b = ip @ ''.'' @ [c] @ '' GB'' \<and>
           is_decimal_of ip (n div 10) \<and> is_decimal_of [c] (n mod 10) \<and>
           2 * 1073741824 * n \<le> 20 * b + 1073741824 \<and>
           20 * b + 1073741824 < 2 * 1073741824 * (n + 1))"
    using toFixed1_shape [of 1073741824 b] by (auto simp: formatSize_def)
  have bytes_case: "b < 1024 \<longrightarrow> (\<exists>s. formatSize b = s @ '' bytes'' \<and> is_decimal_of s b)"
    using show_nat_decimal [of b] by (auto simp: formatSize_def)
  from bytes_case kb mb gb show ?thesis by blast
qed

theorem formatSize_ranges_witness:
  "(512::nat) \<le> 9007199254740991 \<and> (512::nat) < 1024 \<and>
   formatSize 512 = ''512 bytes'' \<and> is_decimal_of ''512'' 512 \<and>
   (1536::nat) \<le> 9007199254740991 \<and> (1024::nat) \<le> 1536 \<and> (1536::nat) < 1048576 \<and>
   formatSize 1536 = ''1.5 KB'' \<and>
   is_decimal_of ''1'' (15 div 10) \<and> is_decimal_of ''5'' (15 mod 10) \<and>
   (2::nat) * 1024 * 15 \<le> 20 * 1536 + 1024 \<and> (20::nat) * 1536 + 1024 < 2 * 1024 * (15 + 1) \<and>
   (1048575::nat) \<le> 9007199254740991 \<and> (1024::nat) \<le> 1048575 \<and> (1048575::nat) < 1048576 \<and>
   formatSize 1048575 = ''1024.0 KB'' \<and>
   is_decimal_of ''1024'' (10240 div 10) \<and> is_decimal_of ''0'' (10240 mod 10) \<and>
   (5242880::nat) \<le> 9007199254740991 \<and> (1048576::nat) \<le> 5242880 \<and>
   (5242880::nat) < 1073741824 \<and>
   formatSize 5242880 = ''5.0 MB'' \<and>
   is_decimal_of ''5'' (50 div 10) \<and> is_decimal_of ''0'' (50 mod 10) \<and>
   (1610612736::nat) \<le> 9007199254740991 \<and> (1073741824::nat) \<le> 1610612736 \<and>
   formatSize 1610612736 = ''1.5 GB'' \<and>
   is_decimal_of ''1'' (15 div 10) \<and> is_decimal_of ''5'' (15 mod 10)"
  using formatSize_ranges [of 512] formatSize_ranges [of 1536] formatSize_ranges [of 1048575]
        formatSize_ranges [of 5242880] formatSize_ranges [of 1610612736]
  by (simp add: formatSize_def toFixed1_def show_defs is_decimal_of_def is_digit_def
      digit_val_def decimal_value_def)





section \<open>The clipboard heuristic\<close>

text \<open>Every \<open>refresh\<close> fires the change event, so it is visible in the state.\<close>

lemma refresh_changes: "refresh sel st \<noteq> st"
proof
  assume "refresh sel st = st"
  then have "fired (refresh sel st) = fired st" by simp
  then show False by (simp add: refresh_def)
qed

text \<open>
  Claim C9. The clipboard callback refreshes only when the text starts with \<open>/\<close> or
  contains \<open>:/\<close> and the path of the file URI built from it exists, and then it selects
  that URI. The text \<open>hello world\<close> never changes the state; the text \<open>/tmp/foo\<close>
  changes it exactly when its path exists; any text that neither starts with \<open>/\<close> nor
  contains \<open>:/\<close> leaves the state, and with it the row list, as it was.
\<close>

theorem clipboard_heuristic:
  "(on_clipboard_text h text st \<noteq> st \<longrightarrow>
      (startsWith text ''/'' \<or> includes_str text '':/'') \<and>
      (\<exists>uri. Uri_file h text = Inr uri \<and> existsSync h (fsPath uri) \<and>
             on_clipboard_text h text st = refresh (Some uri) st)) \<and>
   on_clipboard_text h ''hello world'' st = st \<and>
   (on_clipboard_text h ''/tmp/foo'' st \<noteq> st \<longleftrightarrow>
      (\<exists>uri. Uri_file h ''/tmp/foo'' = Inr uri \<and> existsSync h (fsPath uri))) \<and>
   (\<not> startsWith text ''/'' \<and> \<not> includes_str text '':/'' \<longrightarrow>
      on_clipboard_text h text st = st \<and>
      getChildren h (on_clipboard_text h text st) el = getChildren h st el)"
proof -
  have general: "on_clipboard_text h text st \<noteq> st \<longrightarrow>
      (startsWith text ''/'' \<or> includes_str text '':/'') \<and>
      (\<exists>uri. Uri_file h text = Inr uri \<and> existsSync h (fsPath uri) \<and>
             on_clipboard_text h text st = refresh (Some uri) st)"
    by (auto simp: on_clipboard_text_def split: sum.splits if_splits)
  have hello: "on_clipboard_text h ''hello world'' st = st"
    by (simp add: on_clipboard_text_def)
  have foo: "on_clipboard_text h ''/tmp/foo'' st \<noteq> st \<longleftrightarrow>
      (\<exists>uri. Uri_file h ''/tmp/foo'' = Inr uri \<and> existsSync h (fsPath uri))"
    by (auto simp: on_clipboard_text_def refresh_changes split: sum.splits)
  have nonpath: "\<not> startsWith text ''/'' \<and> \<not> includes_str text '':/'' \<longrightarrow>
      on_clipboard_text h text st = st \<and>
      getChildren h (on_clipboard_text h text st) el = getChildren h st el"
    by (simp add: on_clipboard_text_def)
  from general hello foo nonpath show ?thesis by blast
qed

theorem clipboard_heuristic_witness:
  "on_clipboard_text demo_host ''/proj'' (selecting ''/proj/a.txt'') \<noteq> selecting ''/proj/a.txt'' \<and>
   startsWith ''/proj'' ''/'' \<and>
   existsSync demo_host ''/proj'' \<and>
   currentSelection (on_clipboard_text demo_host ''/proj'' (selecting ''/proj/a.txt'')) =
     Some \<lparr> fsPath = ''/proj'' \<rparr> \<and>
   \<not> existsSync demo_host ''/tmp/foo'' \<and>
   on_clipboard_text demo_host ''/tmp/foo'' (selecting ''/proj/a.txt'') = selecting ''/proj/a.txt'' \<and>
   \<not> startsWith ''hello world'' ''/'' \<and> \<not> includes_str ''hello world'' '':/'' \<and>
   on_clipboard_text demo_host ''hello world'' (selecting ''/proj/a.txt'') = selecting ''/proj/a.txt''"
  using clipboard_heuristic [of demo_host "''/proj''" "selecting ''/proj/a.txt''"]
        clipboard_heuristic [of demo_host "''hello world''" "selecting ''/proj/a.txt''"]
  by (simp add: demo_defs on_clipboard_text_def)


section \<open>Counting the entries of a listing\<close>

lemmas entry_defs = is_dir_entry_def is_file_entry_def

subsection \<open>Objects as association lists\<close>

lemma obj_get_obj_set:
  "obj_get (obj_set k v c) k' = (if k' = k then Some v else obj_get c k')"
  by (induction c) auto

lemma or_zero_increment:
  "or_zero (obj_get (increment k c) k') = or_zero (obj_get c k') + (if k' = k then 1 else 0)"
  by (simp add: increment_def obj_get_obj_set or_zero_def)

lemma gt_zero_or_zero: "gt_zero r = (0 < or_zero r)"
  by (cases r) (simp_all add: gt_zero_def or_zero_def)

subsection \<open>extname\<close>

lemma extname_dot:
  assumes "extname f \<noteq> []"
  shows "\<exists>x. extname f = CHR ''.'' # x"
proof -
  define b where "b = basename f"
  define u where "u = dropWhile (\<lambda>c. c \<noteq> CHR ''.'') (rev b)"
  define t where "t = takeWhile (\<lambda>c. c \<noteq> CHR ''.'') (rev b)"
  from assms have u: "u \<noteq> []" and ext: "extname f = drop (length u - 1) b"
    by (auto simp: extname_def b_def u_def Let_def split: if_splits)
  from u have hd: "hd u = CHR ''.''"
    using hd_dropWhile [of "\<lambda>c. c \<noteq> CHR ''.''" "rev b"] by (auto simp: u_def)
  from u hd obtain u' where u': "u = CHR ''.'' # u'"
    by (cases u) auto
  have "rev b = t @ u"
    by (simp add: t_def u_def)
  then have "b = rev u' @ CHR ''.'' # rev t"
    using u' by (metis rev_append rev_rev_ident rev.simps(2) append_Cons append_Nil append_assoc)
  then have "drop (length u - 1) b = CHR ''.'' # rev t"
    using u' by simp
  with ext show ?thesis by simp
qed

lemma lower_char_dot: "lower_char (CHR ''.'') = CHR ''.''"
  by (simp add: lower_defs)

lemma bucket_key_cases:
  "(extname f = [] \<and> bucket_key f = ''no-extension'') \<or>
   (extname f \<noteq> [] \<and> bucket_key f = toLowerCase (extname f) \<and>
    (\<exists>x. bucket_key f = CHR ''.'' # x))"
proof (cases "extname f = []")
  case True
  then show ?thesis by (simp add: bucket_key_def toLowerCase_def)
next
  case False
  then obtain x where "extname f = CHR ''.'' # x"
    using extname_dot by blast
  then show ?thesis
    by (simp add: bucket_key_def toLowerCase_def lower_char_dot)
qed

lemma bucket_key_not_reserved:
  "bucket_key f \<noteq> ''directories''" "bucket_key f \<noteq> ''files''" "bucket_key f \<noteq> ''error''"
  using bucket_key_cases [of f] by auto

subsection \<open>The counting loop\<close>

lemma count_entry_tally:
  "or_zero (obj_get (count_entry h d c f) k) = or_zero (obj_get c k) + tally h d k f"
proof (cases "statSync h (path_join d f)")
  case (Inl e)
  then show ?thesis
    by (simp add: count_entry_def tally_def is_dir_entry_def is_file_entry_def)
next
  case (Inr stats)
  show ?thesis
  proof (cases "isDirectory stats")
    case True
    with Inr show ?thesis
      by (simp add: count_entry_def tally_def is_dir_entry_def or_zero_increment)
  next
    case False
    with Inr show ?thesis
      by (simp add: count_entry_def tally_def is_dir_entry_def is_file_entry_def bucket_key_def
          or_zero_increment Let_def)
  qed
qed

lemma foldl_count_entry_tally:
  "or_zero (obj_get (foldl (count_entry h d) c fs) k) =
     or_zero (obj_get c k) + sum_list (map (tally h d k) fs)"
  by (induction fs arbitrary: c) (simp_all add: count_entry_tally)

lemma sum_list_indicator:
  "sum_list (map (\<lambda>f. if P f then 1 else 0) fs) = length (filter P fs)"
  by (induction fs) auto

lemma tally_directories:
  "tally h d ''directories'' = (\<lambda>f. if is_dir_entry h d f then 1 else 0)"
proof
  fix f
  show "tally h d ''directories'' f = (if is_dir_entry h d f then 1 else 0)"
    using bucket_key_not_reserved(1) [of f] by (auto simp: tally_def)
qed

lemma tally_files:
  "tally h d ''files'' = (\<lambda>f. if is_file_entry h d f then 1 else 0)"
proof
  fix f
  show "tally h d ''files'' f = (if is_file_entry h d f then 1 else 0)"
    using bucket_key_not_reserved(2) [of f]
    by (auto simp: tally_def is_dir_entry_def is_file_entry_def split: sum.splits)
qed

lemma tally_other:
  assumes "k \<noteq> ''directories''" and "k \<noteq> ''files''"
  shows "tally h d k = (\<lambda>f. if is_file_entry h d f \<and> bucket_key f = k then 1 else 0)"
proof
  fix f
  show "tally h d k f = (if is_file_entry h d f \<and> bucket_key f = k then 1 else 0)"
    using assms
    by (auto simp: tally_def is_dir_entry_def is_file_entry_def split: sum.splits)
qed

lemma initial_counts_zero:
  "or_zero (obj_get [(''directories'', 0), (''files'', 0)] k) = 0"
  by (simp add: or_zero_def)

lemma foldl_count_entry_initial:
  "or_zero (obj_get (foldl (count_entry h d) [(''directories'', 0), (''files'', 0)] fs) k) =
     sum_list (map (tally h d k) fs)"
  using foldl_count_entry_tally [of h d "[(''directories'', 0), (''files'', 0)]" fs k]
  by (simp only: initial_counts_zero add_0)

lemma countFileTypes_directories:
  "readdirSync h d = Inr fs \<Longrightarrow>
   or_zero (obj_get (countFileTypes h d) ''directories'') = length (filter (is_dir_entry h d) fs)"
  by (simp add: countFileTypes_def foldl_count_entry_initial tally_directories sum_list_indicator)

lemma countFileTypes_files:
  "readdirSync h d = Inr fs \<Longrightarrow>
   or_zero (obj_get (countFileTypes h d) ''files'') = length (filter (is_file_entry h d) fs)"
  by (simp add: countFileTypes_def foldl_count_entry_initial tally_files sum_list_indicator)

lemma countFileTypes_other:
  "readdirSync h d = Inr fs \<Longrightarrow> k \<noteq> ''directories'' \<Longrightarrow> k \<noteq> ''files'' \<Longrightarrow>
   or_zero (obj_get (countFileTypes h d) k) =
     length (filter (\<lambda>f. is_file_entry h d f \<and> bucket_key f = k) fs)"
  by (simp add: countFileTypes_def foldl_count_entry_initial tally_other sum_list_indicator)

lemma toLowerCase_Nil: "toLowerCase x = [] \<longleftrightarrow> x = []"
  by (simp add: toLowerCase_def)

lemma stat_partition:
  "length (filter (is_dir_entry h d) files) + length (filter (is_file_entry h d) files) =
     length (filter (\<lambda>f. \<not> isl (statSync h (path_join d f))) files)"
  by (induction files) (auto simp: is_dir_entry_def is_file_entry_def split: sum.splits)

text \<open>
  Claim C2, with the bucket key as the code forms it. For a directory with listing
  \<open>files\<close>, \<open>countFileTypes\<close> looks at the listed entries only and stats each one:
  \<open>directories\<close> counts the entries that are directories, \<open>files\<close> the others that
  can be stat'ed; a file is counted once more under its lower-cased \<open>path.extname\<close>,
  which keeps its leading dot (\<open>.txt\<close>, not \<open>txt\<close>), or under \<open>no-extension\<close> when
  \<open>path.extname\<close> is empty; an entry whose \<open>statSync\<close> throws is counted nowhere.
  Lower-casing is that of \<open>toLowerCase\<close>, accented capitals included: two files with
  the extensions \<open>0xC9\<close> and \<open>0xE9\<close> fall into the one bucket of the small letter.
\<close>

theorem countFileTypes_buckets:
  assumes "readdirSync h d = Inr files"
  shows
  "or_zero (obj_get (countFileTypes h d) ''directories'') =
     length (filter (is_dir_entry h d) files) \<and>
   or_zero (obj_get (countFileTypes h d) ''files'') =
     length (filter (is_file_entry h d) files) \<and>
   or_zero (obj_get (countFileTypes h d) ''no-extension'') =
     length (filter (\<lambda>f. is_file_entry h d f \<and> extname f = []) files) \<and>
   (\<forall>k. k \<noteq> ''directories'' \<and> k \<noteq> ''files'' \<and> k \<noteq> ''no-extension'' \<longrightarrow>
      or_zero (obj_get (countFileTypes h d) k) =
        length (filter (\<lambda>f. is_file_entry h d f \<and> extname f \<noteq> [] \<and>
                            toLowerCase (extname f) = k) files)) \<and>
   (\<forall>f. extname f \<noteq> [] \<longrightarrow> (\<exists>x. toLowerCase (extname f) = CHR ''.'' # x)) \<and>
   or_zero (obj_get (countFileTypes h d) ''directories'') +
   or_zero (obj_get (countFileTypes h d) ''files'') =
     length (filter (\<lambda>f. \<not> isl (statSync h (path_join d f))) files)"
proof -
  have noext: "or_zero (obj_get (countFileTypes h d) ''no-extension'') =
     length (filter (\<lambda>f. is_file_entry h d f \<and> extname f = []) files)"
  proof -
    have "\<And>f. bucket_key f = ''no-extension'' \<longleftrightarrow> extname f = []"
      using bucket_key_cases by fastforce
    then show ?thesis
      using countFileTypes_other [OF assms, of "''no-extension''"] by simp
  qed
  have other: "\<forall>k. k \<noteq> ''directories'' \<and> k \<noteq> ''files'' \<and> k \<noteq> ''no-extension'' \<longrightarrow>
      or_zero (obj_get (countFileTypes h d) k) =
        length (filter (\<lambda>f. is_file_entry h d f \<and> extname f \<noteq> [] \<and>
                            toLowerCase (extname f) = k) files)"
  proof (intro allI impI)
    fix k assume k: "k \<noteq> ''directories'' \<and> k \<noteq> ''files'' \<and> k \<noteq> ''no-extension''"
    have "\<And>f. bucket_key f = k \<longleftrightarrow> extname f \<noteq> [] \<and> toLowerCase (extname f) = k"
      using bucket_key_cases k by metis
    then show "or_zero (obj_get (countFileTypes h d) k) =
        length (filter (\<lambda>f. is_file_entry h d f \<and> extname f \<noteq> [] \<and>
                            toLowerCase (extname f) = k) files)"
      using countFileTypes_other [OF assms, of k] k by simp
  qed
  have dot: "\<forall>f. extname f \<noteq> [] \<longrightarrow> (\<exists>x. toLowerCase (extname f) = CHR ''.'' # x)"
    using bucket_key_cases by metis
  show ?thesis
    using countFileTypes_directories [OF assms] countFileTypes_files [OF assms] noext other dot
      stat_partition [of h d files]
    by simp
qed

theorem countFileTypes_buckets_witness:
  "readdirSync demo_host ''/proj/sub'' = Inr [''README'', ''x.TXT'', ''lost''] \<and>
   or_zero (obj_get (countFileTypes demo_host ''/proj/sub'') ''directories'') = 0 \<and>
   or_zero (obj_get (countFileTypes demo_host ''/proj/sub'') ''files'') = 2 \<and>
   or_zero (obj_get (countFileTypes demo_host ''/proj/sub'') ''no-extension'') = 1 \<and>
   ''.txt'' \<noteq> ''directories'' \<and> ''.txt'' \<noteq> ''files'' \<and> ''.txt'' \<noteq> ''no-extension'' \<and>
   or_zero (obj_get (countFileTypes demo_host ''/proj/sub'') ''.txt'') = 1 \<and>
   extname ''x.TXT'' \<noteq> [] \<and> toLowerCase (extname ''x.TXT'') = ''.txt'' \<and>
   isl (statSync demo_host (path_join ''/proj/sub'' ''lost'')) \<and>
   readdirSync demo_host ''/logs'' = Inr logs_listing \<and>
   toLowerCase (extname (''a'' @ [CHR ''.'', CHR 0xC9])) = [CHR ''.'', CHR 0xE9] \<and>
   toLowerCase (extname (''b'' @ [CHR ''.'', CHR 0xE9])) = [CHR ''.'', CHR 0xE9] \<and>
   or_zero (obj_get (countFileTypes demo_host ''/logs'') [CHR ''.'', CHR 0xE9]) = 2 \<and>
   or_zero (obj_get (countFileTypes demo_host ''/logs'') [CHR ''.'', CHR 0xC9]) = 0 \<and>
   or_zero (obj_get (countFileTypes demo_host ''/logs'') ''.log'') = 11"
proof -
  have rd: "readdirSync demo_host ''/proj/sub'' = Inr [''README'', ''x.TXT'', ''lost'']"
    and rd': "readdirSync demo_host ''/logs'' = Inr logs_listing"
    by (simp_all add: demo_host_fields demo_readdir_def)
  note buckets = countFileTypes_buckets [OF rd]
  note by_key = buckets [THEN conjunct2, THEN conjunct2, THEN conjunct2, THEN conjunct1,
      rule_format]
  note by_key' = countFileTypes_buckets [OF rd', THEN conjunct2, THEN conjunct2, THEN conjunct2,
      THEN conjunct1, rule_format]
  have dirs: "or_zero (obj_get (countFileTypes demo_host ''/proj/sub'') ''directories'') = 0"
    using buckets [THEN conjunct1] by (simp add: demo_defs path_defs entry_defs)
  have files: "or_zero (obj_get (countFileTypes demo_host ''/proj/sub'') ''files'') = 2"
    using buckets [THEN conjunct2, THEN conjunct1] by (simp add: demo_defs path_defs entry_defs)
  have noext: "or_zero (obj_get (countFileTypes demo_host ''/proj/sub'') ''no-extension'') = 1"
    using buckets [THEN conjunct2, THEN conjunct2, THEN conjunct1]
    by (simp add: demo_defs path_defs entry_defs)
  have distinct_key: "''.txt'' \<noteq> ''directories'' \<and> ''.txt'' \<noteq> ''files'' \<and> ''.txt'' \<noteq> ''no-extension''"
    by simp
  have dot_txt: "or_zero (obj_get (countFileTypes demo_host ''/proj/sub'') ''.txt'') = 1"
    using by_key [OF distinct_key]
    by (simp add: demo_defs path_defs entry_defs lower_defs)
  have ext_txt: "extname ''x.TXT'' \<noteq> [] \<and> toLowerCase (extname ''x.TXT'') = ''.txt''"
    by (simp add: path_defs lower_defs)
  have lost: "isl (statSync demo_host (path_join ''/proj/sub'' ''lost''))"
    by (simp add: demo_defs path_defs)
  have accent: "toLowerCase (extname (''a'' @ [CHR ''.'', CHR 0xC9])) = [CHR ''.'', CHR 0xE9]"
    "toLowerCase (extname (''b'' @ [CHR ''.'', CHR 0xE9])) = [CHR ''.'', CHR 0xE9]"
    by (simp_all add: path_defs lower_defs)
  have small: "or_zero (obj_get (countFileTypes demo_host ''/logs'') [CHR ''.'', CHR 0xE9]) = 2"
    using by_key' [of "[CHR ''.'', CHR 0xE9]"]
    by (simp add: demo_defs path_defs entry_defs lower_defs)
  have capital: "or_zero (obj_get (countFileTypes demo_host ''/logs'') [CHR ''.'', CHR 0xC9]) = 0"
    using by_key' [of "[CHR ''.'', CHR 0xC9]"]
    by (simp add: demo_defs path_defs entry_defs lower_defs)
  have logs: "or_zero (obj_get (countFileTypes demo_host ''/logs'') ''.log'') = 11"
    using by_key' [of "''.log''"]
    by (simp add: demo_defs path_defs entry_defs lower_defs)
  from rd rd' dirs files noext distinct_key dot_txt ext_txt lost accent small capital logs
  show ?thesis by simp
qed

theorem countFileTypes_key_counterexample:
  "readdirSync demo_host ''/proj'' = Inr [''a.txt'', ''b.txt'', ''c.md'', ''sub''] \<and>
   countFileTypes demo_host ''/proj'' =
     [(''directories'', 1), (''files'', 3), (''.txt'', 2), (''.md'', 1)] \<and>
   obj_get (countFileTypes demo_host ''/proj'') ''txt'' = None \<and>
   obj_get (countFileTypes demo_host ''/proj'') ''.txt'' = Some 2"
  by (simp add: countFileTypes_def count_entry_def increment_def or_zero_def demo_defs path_defs
      lower_defs)


section \<open>The rows without a selection\<close>

lemma count_rows_explicit:
  assumes "readdirSync h d = Inr files"
  shows "count_rows (countFileTypes h d) =
     (if 0 < length (filter (is_dir_entry h d) files)
      then [info_row (''Subdirectories: '' @ show_nat (length (filter (is_dir_entry h d) files)))]
      else [])
     @ (if 0 < length (filter (is_file_entry h d) files)
        then [info_row (''Files: '' @ show_nat (length (filter (is_file_entry h d) files)))]
        else [])"
  unfolding count_rows_def gt_zero_or_zero
  by (simp only: countFileTypes_directories [OF assms] countFileTypes_files [OF assms])

text \<open>
  Claim C8, with the unreadable root set apart. With no selection held: for a
  non-empty workspace root whose listing can be read, the rows are the identity row of
  the root, the number of listed entries, and the two counts of \<open>countFileTypes\<close>, each
  only when positive, and nothing about extensions; for a root whose listing cannot be
  read, the identity row alone; with no (or an empty) workspace root, the single row
  \<open>No workspace or selection\<close>.
\<close>

theorem workspace_rows_no_selection:
  assumes "currentSelection st = None"
  shows
  "(workspaceRoot st = Some root \<and> root \<noteq> [] \<and> readdirSync h root = Inr files \<longrightarrow>
      getChildren h st None =
        [new_DirectoryItem (''Workspace: '' @ basename root) Collapsible_None (Some root)
           (Some ''directory''),
         info_row (''Root contains: '' @ show_nat (length files) @ '' items'')]
        @ (if 0 < length (filter (is_dir_entry h root) files)
           then [info_row (''Subdirectories: '' @
                   show_nat (length (filter (is_dir_entry h root) files)))]
           else [])
        @ (if 0 < length (filter (is_file_entry h root) files)
           then [info_row (''Files: '' @ show_nat (length (filter (is_file_entry h root) files)))]
           else [])) \<and>
   (workspaceRoot st = Some root \<and> root \<noteq> [] \<and> readdirSync h root = Inl e \<longrightarrow>
      getChildren h st None =
        [new_DirectoryItem (''Workspace: '' @ basename root) Collapsible_None (Some root)
           (Some ''directory'')]) \<and>
   (workspaceRoot st = None \<or> workspaceRoot st = Some [] \<longrightarrow>
      getChildren h st None = [info_row ''No workspace or selection''])"
proof -
  have readable: "workspaceRoot st = Some root \<and> root \<noteq> [] \<and> readdirSync h root = Inr files \<longrightarrow>
      getChildren h st None =
        [new_DirectoryItem (''Workspace: '' @ basename root) Collapsible_None (Some root)
           (Some ''directory''),
         info_row (''Root contains: '' @ show_nat (length files) @ '' items'')]
        @ (if 0 < length (filter (is_dir_entry h root) files)
           then [info_row (''Subdirectories: '' @
                   show_nat (length (filter (is_dir_entry h root) files)))]
           else [])
        @ (if 0 < length (filter (is_file_entry h root) files)
           then [info_row (''Files: '' @ show_nat (length (filter (is_file_entry h root) files)))]
           else [])"
  proof
    assume a: "workspaceRoot st = Some root \<and> root \<noteq> [] \<and> readdirSync h root = Inr files"
    then have rd: "readdirSync h root = Inr files" by simp
    have "getChildren h st None =
            new_DirectoryItem (''Workspace: '' @ basename root) Collapsible_None (Some root)
              (Some ''directory'')
            # info_row (''Root contains: '' @ show_nat (length files) @ '' items'')
            # count_rows (countFileTypes h root)"
      using assms a by (simp add: getChildren_def truthy_def workspace_rows_def)
    then show "getChildren h st None =
        [new_DirectoryItem (''Workspace: '' @ basename root) Collapsible_None (Some root)
           (Some ''directory''),
         info_row (''Root contains: '' @ show_nat (length files) @ '' items'')]
        @ (if 0 < length (filter (is_dir_entry h root) files)
           then [info_row (''Subdirectories: '' @
                   show_nat (length (filter (is_dir_entry h root) files)))]
           else [])
        @ (if 0 < length (filter (is_file_entry h root) files)
           then [info_row (''Files: '' @ show_nat (length (filter (is_file_entry h root) files)))]
           else [])"
      by (simp only: count_rows_explicit [OF rd] append_Cons append_Nil)
  qed
  have unreadable: "workspaceRoot st = Some root \<and> root \<noteq> [] \<and> readdirSync h root = Inl e \<longrightarrow>
      getChildren h st None =
        [new_DirectoryItem (''Workspace: '' @ basename root) Collapsible_None (Some root)
           (Some ''directory'')]"
    using assms by (simp add: getChildren_def truthy_def workspace_rows_def)
  have none: "workspaceRoot st = None \<or> workspaceRoot st = Some [] \<longrightarrow>
      getChildren h st None = [info_row ''No workspace or selection'']"
    using assms by (auto simp: getChildren_def truthy_def)
  from readable unreadable none show ?thesis by blast
qed

theorem workspace_rows_no_selection_witness:
  "currentSelection (new_SelectedItemProvider (Some ''/proj'')) = None \<and>
   workspaceRoot (new_SelectedItemProvider (Some ''/proj'')) = Some ''/proj'' \<and>
   readdirSync demo_host ''/proj'' = Inr [''a.txt'', ''b.txt'', ''c.md'', ''sub''] \<and>
   map label (getChildren demo_host (new_SelectedItemProvider (Some ''/proj'')) None) =
     [''Workspace: proj'', ''Root contains: 4 items'', ''Subdirectories: 1'', ''Files: 3''] \<and>
   currentSelection (new_SelectedItemProvider (Some ''/proj/sub/lost'')) = None \<and>
   workspaceRoot (new_SelectedItemProvider (Some ''/proj/sub/lost'')) = Some ''/proj/sub/lost'' \<and>
   readdirSync demo_host ''/proj/sub/lost'' = Inl ENOENT \<and>
   map label (getChildren demo_host (new_SelectedItemProvider (Some ''/proj/sub/lost'')) None) =
     [''Workspace: lost''] \<and>
   currentSelection (new_SelectedItemProvider None) = None \<and>
   workspaceRoot (new_SelectedItemProvider None) = None \<and>
   getChildren demo_host (new_SelectedItemProvider None) None =
     [info_row ''No workspace or selection'']"
  using workspace_rows_no_selection [of "new_SelectedItemProvider (Some ''/proj'')" "''/proj''"
          demo_host "[''a.txt'', ''b.txt'', ''c.md'', ''sub'']" ENOENT]
        workspace_rows_no_selection [of "new_SelectedItemProvider (Some ''/proj/sub/lost'')"
          "''/proj/sub/lost''" demo_host "[]" ENOENT]
        workspace_rows_no_selection [of "new_SelectedItemProvider None" "[]" demo_host "[]" ENOENT]
  by (simp add: demo_defs path_defs entry_defs show_defs info_row_def new_DirectoryItem_def)

theorem workspace_unreadable_counterexample:
  "currentSelection (new_SelectedItemProvider (Some ''/locked'')) = None \<and>
   workspaceRoot (new_SelectedItemProvider (Some ''/locked'')) = Some ''/locked'' \<and>
   map label (getChildren demo_host (new_SelectedItemProvider (Some ''/locked'')) None) =
     [''Workspace: locked'']"
  by (simp add: getChildren_def workspace_rows_def truthy_def demo_defs path_defs info_row_def
      new_DirectoryItem_def)


section \<open>The most common extensions\<close>

subsection \<open>The order of the keys\<close>

lemma keys_obj_set:
  "map fst (filter (\<lambda>e. Q (fst e)) (obj_set k v c)) =
     (if Q k \<and> k \<notin> fst ` set c then map fst (filter (\<lambda>e. Q (fst e)) c) @ [k]
      else map fst (filter (\<lambda>e. Q (fst e)) c))"
proof (induction c)
  case Nil
  then show ?case by simp
next
  case (Cons p c)
  obtain k' v' where p: "p = (k', v')" by (cases p)
  show ?case
  proof (cases "k' = k")
    case True
    then show ?thesis using p by force
  next
    case False
    then show ?thesis using p Cons by auto
  qed
qed

lemma keys_increment:
  "map fst (filter (\<lambda>e. Q (fst e)) (increment k c)) =
     (if Q k \<and> k \<notin> fst ` set c then map fst (filter (\<lambda>e. Q (fst e)) c) @ [k]
      else map fst (filter (\<lambda>e. Q (fst e)) c))"
  by (simp only: increment_def keys_obj_set)

lemma all_keys_obj_set: "fst ` set (obj_set k v c) = insert k (fst ` set c)"
proof (induction c)
  case Nil
  then show ?case by simp
next
  case (Cons p c)
  obtain k' v' where p: "p = (k', v')" by (cases p)
  show ?case
  proof (cases "k' = k")
    case True
    then show ?thesis using p by force
  next
    case False
    then show ?thesis using p Cons by auto
  qed
qed

lemma all_keys_increment: "fst ` set (increment k c) = insert k (fst ` set c)"
  by (simp only: increment_def all_keys_obj_set)

lemma distinct_obj_set: "distinct (map fst c) \<Longrightarrow> distinct (map fst (obj_set k v c))"
  by (induction c) (auto simp: all_keys_obj_set)

lemma distinct_increment: "distinct (map fst c) \<Longrightarrow> distinct (map fst (increment k c))"
  by (simp only: increment_def distinct_obj_set)

lemma distinct_count_entry:
  "distinct (map fst c) \<Longrightarrow> distinct (map fst (count_entry h d c f))"
  by (auto simp: count_entry_def Let_def distinct_increment split: sum.splits)

lemma distinct_foldl_count_entry:
  "distinct (map fst c) \<Longrightarrow> distinct (map fst (foldl (count_entry h d) c fs))"
  by (induction fs arbitrary: c) (simp_all add: distinct_count_entry)

lemma obj_get_member:
  "distinct (map fst c) \<Longrightarrow> (k, v) \<in> set c \<Longrightarrow> obj_get c k = Some v"
  by (induction c) (auto simp: rev_image_eqI)


lemma lowered_extension_dot:
  assumes "extname f \<noteq> []"
  shows "\<exists>x. toLowerCase (extname f) = CHR ''.'' # x"
proof -
  from assms obtain y where "extname f = CHR ''.'' # y"
    using extname_dot by blast
  then show ?thesis by (simp add: toLowerCase_def lower_char_dot)
qed

lemma lowered_extension_unreserved:
  assumes "extname f \<noteq> []"
  shows "toLowerCase (extname f) \<notin> set reserved_keys"
proof -
  from assms obtain x where "toLowerCase (extname f) = CHR ''.'' # x"
    using lowered_extension_dot by blast
  then show ?thesis by (simp add: reserved_keys_def)
qed

lemma reserved_members:
  "''directories'' \<in> set reserved_keys" "''files'' \<in> set reserved_keys"
  "''no-extension'' \<in> set reserved_keys" "''error'' \<in> set reserved_keys"
  by (simp_all add: reserved_keys_def)

lemmas unreserved_keys_increment = keys_increment [where Q = "\<lambda>k. k \<notin> set reserved_keys"]

lemma keys_count_entry:
  "map fst (filter (\<lambda>e. fst e \<notin> set reserved_keys) (count_entry h d c f)) =
     (if is_file_entry h d f \<and> extname f \<noteq> [] \<and> toLowerCase (extname f) \<notin> fst ` set c
      then map fst (filter (\<lambda>e. fst e \<notin> set reserved_keys) c) @ [toLowerCase (extname f)]
      else map fst (filter (\<lambda>e. fst e \<notin> set reserved_keys) c))"
proof (cases "statSync h (path_join d f)")
  case (Inl e)
  then show ?thesis by (simp add: count_entry_def is_file_entry_def)
next
  case (Inr stats)
  show ?thesis
  proof (cases "isDirectory stats")
    case True
    with Inr show ?thesis
      by (simp add: count_entry_def is_file_entry_def unreserved_keys_increment reserved_members)
  next
    case False
    note regular = this
    show ?thesis
    proof (cases "extname f = []")
      case True
      with Inr regular show ?thesis
        by (simp add: count_entry_def is_file_entry_def unreserved_keys_increment
            reserved_members toLowerCase_def)
    next
      case False
      then obtain x where x: "toLowerCase (extname f) = CHR ''.'' # x"
        using lowered_extension_dot by blast
      from False have low: "toLowerCase (extname f) \<noteq> []"
        by (simp add: toLowerCase_def)
      have unres: "toLowerCase (extname f) \<notin> set reserved_keys"
        using False by (rule lowered_extension_unreserved)
      have ne: "toLowerCase (extname f) \<noteq> ''files''"
        using x by simp
      from Inr regular False low show ?thesis
        by (simp add: count_entry_def is_file_entry_def Let_def unreserved_keys_increment
            all_keys_increment unres reserved_members ne)
    qed
  qed
qed

lemma remdups_seen_later:
  "e \<in> set xs \<Longrightarrow> remdups (ys @ e # xs) = remdups (ys @ xs)"
  by (induction ys) auto

lemma unreserved_key_member:
  "k \<notin> set reserved_keys \<Longrightarrow>
   k \<in> set (map fst (filter (\<lambda>e. fst e \<notin> set reserved_keys) c)) \<longleftrightarrow> k \<in> fst ` set c"
  by (induction c) auto

lemma keys_foldl_count_entry:
  assumes "distinct (map fst c)"
  shows "map fst (filter (\<lambda>e. fst e \<notin> set reserved_keys) (foldl (count_entry h d) c fs)) =
     rev (remdups (rev (map fst (filter (\<lambda>e. fst e \<notin> set reserved_keys) c) @
        map (\<lambda>f. toLowerCase (extname f))
          (filter (\<lambda>f. is_file_entry h d f \<and> extname f \<noteq> []) fs))))"
  using assms
proof (induction fs arbitrary: c)
  case Nil
  then have "distinct (map fst (filter (\<lambda>e. fst e \<notin> set reserved_keys) c))"
    by (simp add: distinct_map_filter)
  then show ?case by (simp add: distinct_remdups_id)
next
  case (Cons f fs)
  let ?K = "\<lambda>c. map fst (filter (\<lambda>e. fst e \<notin> set reserved_keys) c)"
  let ?exts = "\<lambda>fs. map (\<lambda>f. toLowerCase (extname f))
                   (filter (\<lambda>f. is_file_entry h d f \<and> extname f \<noteq> []) fs)"
  have d': "distinct (map fst (count_entry h d c f))"
    using Cons.prems by (rule distinct_count_entry)
  have ih: "?K (foldl (count_entry h d) (count_entry h d c f) fs) =
              rev (remdups (rev (?K (count_entry h d c f) @ ?exts fs)))"
    using Cons.IH [OF d'] .
  show ?case
  proof (cases "is_file_entry h d f \<and> extname f \<noteq> []")
    case False
    then have "?K (count_entry h d c f) = ?K c" and "?exts (f # fs) = ?exts fs"
      by (auto simp: keys_count_entry)
    with ih show ?thesis by simp
  next
    case True
    then have exts: "?exts (f # fs) = toLowerCase (extname f) # ?exts fs"
      by simp
    have unres: "toLowerCase (extname f) \<notin> set reserved_keys"
      using True by (simp add: lowered_extension_unreserved)
    show ?thesis
    proof (cases "toLowerCase (extname f) \<in> fst ` set c")
      case False
      with True have "?K (count_entry h d c f) = ?K c @ [toLowerCase (extname f)]"
        by (simp add: keys_count_entry)
      with ih exts show ?thesis by simp
    next
      case seen: True
      with True have same: "?K (count_entry h d c f) = ?K c"
        by (simp add: keys_count_entry)
      from seen unres have "toLowerCase (extname f) \<in> set (rev (?K c))"
        using unreserved_key_member [OF unres, of c] by simp
      then have "remdups (rev (?exts fs) @ toLowerCase (extname f) # rev (?K c)) =
                 remdups (rev (?exts fs) @ rev (?K c))"
        by (rule remdups_seen_later)
      with ih same exts show ?thesis by simp
    qed
  qed
qed

lemma countFileTypes_keys:
  assumes "readdirSync h d = Inr fs"
  shows "map fst (filter (\<lambda>e. fst e \<notin> set reserved_keys) (countFileTypes h d)) =
     rev (remdups (rev (map (\<lambda>f. toLowerCase (extname f))
          (filter (\<lambda>f. is_file_entry h d f \<and> extname f \<noteq> []) fs))))"
  using assms keys_foldl_count_entry [of "[(''directories'', 0), (''files'', 0)]" h d fs]
  by (simp add: countFileTypes_def reserved_members)

lemma distinct_countFileTypes: "distinct (map fst (countFileTypes h d))"
  by (cases "readdirSync h d") (simp_all add: countFileTypes_def distinct_foldl_count_entry)

lemma count_list_extensions:
  "count_list (map (\<lambda>f. toLowerCase (extname f))
       (filter (\<lambda>f. is_file_entry h d f \<and> extname f \<noteq> []) fs)) k =
   length (filter (\<lambda>f. is_file_entry h d f \<and> extname f \<noteq> [] \<and> toLowerCase (extname f) = k) fs)"
  by (induction fs) auto

lemma countFileTypes_entry_value:
  assumes rd: "readdirSync h d = Inr fs"
    and mem: "e \<in> set (countFileTypes h d)"
    and unres: "fst e \<notin> set reserved_keys"
  shows "snd e = count_list (map (\<lambda>f. toLowerCase (extname f))
       (filter (\<lambda>f. is_file_entry h d f \<and> extname f \<noteq> []) fs)) (fst e)"
proof -
  from unres have k: "fst e \<noteq> ''directories''" "fst e \<noteq> ''files''" "fst e \<noteq> ''no-extension''"
    using reserved_members by auto
  have "(fst e, snd e) \<in> set (countFileTypes h d)"
    using mem by simp
  then have "obj_get (countFileTypes h d) (fst e) = Some (snd e)"
    using distinct_countFileTypes obj_get_member by blast
  then have "snd e = or_zero (obj_get (countFileTypes h d) (fst e))"
    by (simp add: or_zero_def)
  also have "\<dots> = length (filter (\<lambda>f. is_file_entry h d f \<and> bucket_key f = fst e) fs)"
    using countFileTypes_other [OF rd k(1) k(2)] .
  also have "\<dots> = length (filter (\<lambda>f. is_file_entry h d f \<and> extname f \<noteq> [] \<and>
                                      toLowerCase (extname f) = fst e) fs)"
  proof -
    have "\<And>f. bucket_key f = fst e \<longleftrightarrow> extname f \<noteq> [] \<and> toLowerCase (extname f) = fst e"
      using bucket_key_cases k(3) by metis
    then show ?thesis by simp
  qed
  finally show ?thesis
    by (simp only: count_list_extensions)
qed

lemma pairs_from_keys:
  assumes "\<forall>e\<in>set xs. snd e = g (fst e)"
  shows "xs = map (\<lambda>k. (k, g k)) (map fst xs)"
  using assms by (induction xs) auto

lemma countFileTypes_extension_entries:
  assumes rd: "readdirSync h d = Inr fs"
    and exts: "exts = map (\<lambda>f. toLowerCase (extname f))
                       (filter (\<lambda>f. is_file_entry h d f \<and> extname f \<noteq> []) fs)"
  shows "filter (\<lambda>e. fst e \<notin> set reserved_keys) (countFileTypes h d) =
           map (\<lambda>k. (k, count_list exts k)) (rev (remdups (rev exts)))"
proof -
  let ?E = "filter (\<lambda>e. fst e \<notin> set reserved_keys) (countFileTypes h d)"
  have "\<forall>e\<in>set ?E. snd e = count_list exts (fst e)"
    using countFileTypes_entry_value [OF rd] exts by simp
  then have "?E = map (\<lambda>k. (k, count_list exts k)) (map fst ?E)"
    by (rule pairs_from_keys)
  then show ?thesis
    using countFileTypes_keys [OF rd] exts by simp
qed

subsection \<open>Sorting by descending count\<close>

lemma sort_desc_sorted: "sorted_wrt (\<lambda>a b. snd b \<le> snd a) (sort_desc es)"
proof -
  have "sorted (map (\<lambda>e. - int (snd e)) (sort_desc es))"
    unfolding sort_desc_def by (rule sorted_sort_key)
  then show ?thesis
    by (simp add: sorted_map)
qed

lemma sort_desc_set: "set (sort_desc es) = set es"
  by (simp add: sort_desc_def)

lemma sort_desc_length: "length (sort_desc es) = length es"
  by (simp add: sort_desc_def)

lemma sort_desc_stable:
  "filter (\<lambda>e. snd e = c) (sort_desc es) = filter (\<lambda>e. snd e = c) es"
proof -
  have "filter (\<lambda>e. - int (snd e) = - int c) (sort_key (\<lambda>e. - int (snd e)) es) =
        filter (\<lambda>e. - int (snd e) = - int c) es"
    by (rule sort_key_stable)
  then show ?thesis by (simp add: sort_desc_def)
qed

lemma top3_properties:
  fixes es :: counts
  defines "shown \<equiv> take 3 (sort_desc es)"
  shows "length shown = min 3 (length es)"
    and "set shown \<subseteq> set es"
    and "sorted_wrt (\<lambda>a b. snd b \<le> snd a) shown"
    and "\<forall>e\<in>set es - set shown. \<forall>t\<in>set shown. snd e \<le> snd t"
    and "\<forall>c. prefix (filter (\<lambda>e. snd e = c) shown) (filter (\<lambda>e. snd e = c) es)"
proof -
  let ?S = "sort_desc es"
  have split: "?S = shown @ drop 3 ?S"
    by (simp add: shown_def)
  show "length shown = min 3 (length es)"
    by (simp add: shown_def sort_desc_length min.commute)
  show "set shown \<subseteq> set es"
    using set_take_subset [of 3 ?S] by (simp add: shown_def sort_desc_set)
  have sorted_all: "sorted_wrt (\<lambda>a b. snd b \<le> snd a) (shown @ drop 3 ?S)"
    using sort_desc_sorted [of es] split by simp
  then show "sorted_wrt (\<lambda>a b. snd b \<le> snd a) shown"
    by (simp add: sorted_wrt_append)
  show "\<forall>e\<in>set es - set shown. \<forall>t\<in>set shown. snd e \<le> snd t"
  proof (intro ballI)
    fix e t assume e: "e \<in> set es - set shown" and t: "t \<in> set shown"
    have "set es = set shown \<union> set (drop 3 ?S)"
      using split sort_desc_set [of es] by (metis set_append)
    with e have "e \<in> set (drop 3 ?S)" by auto
    with t sorted_all show "snd e \<le> snd t"
      by (simp add: sorted_wrt_append)
  qed
  show "\<forall>c. prefix (filter (\<lambda>e. snd e = c) shown) (filter (\<lambda>e. snd e = c) es)"
  proof
    fix c
    have "filter (\<lambda>e. snd e = c) es = filter (\<lambda>e. snd e = c) (shown @ drop 3 ?S)"
      using sort_desc_stable [of c es] split by simp
    then show "prefix (filter (\<lambda>e. snd e = c) shown) (filter (\<lambda>e. snd e = c) es)"
      by (simp add: prefix_def)
  qed
qed

subsection \<open>The rows of a selected directory\<close>

lemma directory_selection_rows:
  assumes sel: "currentSelection st = Some sel"
    and stat: "statSync h (fsPath sel) = Inr s" and dir: "isDirectory s"
    and rd: "readdirSync h (fsPath sel) = Inr files"
  shows "getChildren h st None =
     [new_DirectoryItem (''Directory: '' @ basename (fsPath sel)) Collapsible_None
        (Some (fsPath sel)) (Some ''directory''),
      info_row (''Created: '' @ toLocaleString h (birthtime s)),
      info_row (''Modified: '' @ toLocaleString h (mtime s)),
      info_row (''Permissions: '' @ show_radix 8 (mode s mod 512)),
      info_row (''Size (approx): '' @ formatSize (calculateDirSize h (fsPath sel))),
      info_row (''Contains: '' @ show_nat (length files) @ '' items'')]
     @ count_rows (countFileTypes h (fsPath sel))
     @ common_rows (countFileTypes h (fsPath sel))"
  using assms by (simp add: getChildren_def selection_rows_def directory_rows_def Let_def)

lemmas row_defs = info_row_def new_DirectoryItem_def truthy_def formatPath_def maxLength_def

lemma proj_counts:
  "countFileTypes demo_host ''/proj'' =
     [(''directories'', 1), (''files'', 3), (''.txt'', 2), (''.md'', 1)]"
  by (simp add: countFileTypes_def count_entry_def increment_def or_zero_def demo_defs path_defs
      lower_defs)

lemma many_counts:
  "countFileTypes demo_host ''/many'' =
     [(''directories'', 0), (''files'', 5), (''.c'', 1), (''.h'', 1), (''.py'', 2), (''.rs'', 1)]"
  by (simp add: countFileTypes_def count_entry_def increment_def or_zero_def demo_defs path_defs
      lower_defs)

lemma logs_counts:
  "countFileTypes demo_host ''/logs'' =
     [(''directories'', 0), (''files'', 15), ([CHR ''.'', CHR 0xE9], 2), (''.log'', 11),
      (''.c'', 1), (''.h'', 1)]"
  by (simp add: countFileTypes_def count_entry_def increment_def or_zero_def demo_defs path_defs
      lower_defs)

lemma demo_top_extensions:
  "top_extensions (countFileTypes demo_host ''/proj'') = [(''.txt'', 2), (''.md'', 1)]"
  "top_extensions (countFileTypes demo_host ''/many'') = [(''.py'', 2), (''.c'', 1), (''.h'', 1)]"
  "top_extensions (countFileTypes demo_host ''/logs'') =
     [(''.log'', 11), ([CHR ''.'', CHR 0xE9], 2), (''.c'', 1)]"
  by (simp_all add: proj_counts many_counts logs_counts top_extensions_def sort_desc_def
      reserved_keys_def)

text \<open>
  Claim C3. Let a directory be selected whose \<open>statSync\<close> and listing succeed and
  whose entry sizes add up to at most \<open>2^53 - 1\<close>, let \<open>exts\<close> be the lower-cased
  extensions of the listed files that have one, in listing order, and \<open>E\<close> the distinct
  extensions in the order in which they are first seen, each with its number of
  occurrences (\<open>rev (remdups (rev exts))\<close> keeps the first occurrence of each element).
  The extensions \<open>shown\<close> in the \<open>Common types\<close> row are at most three entries of \<open>E\<close>
  (all of them when \<open>E\<close> has fewer), in descending order of count; no entry left out
  has a larger count than one shown; entries of equal count stand in first-seen order;
  every key starts with the dot that the row drops. The row is the last one,
  \<open>Common types:\<close> followed by the entries rendered as extension without dot, colon,
  the decimal numeral of the count, and joined with a comma and a space; it is absent
  when no listed file has an extension. For the children \<open>a.txt\<close>, \<open>b.txt\<close>, \<open>c.md\<close>
  and \<open>sub/\<close> the rows read \<open>Subdirectories: 1\<close>, \<open>Files: 3\<close> and
  \<open>Common types: txt: 2, md: 1\<close>.
\<close>

theorem common_types_row:
  assumes sel: "currentSelection st = Some sel"
    and stat: "statSync h (fsPath sel) = Inr s" and dir: "isDirectory s"
    and rd: "readdirSync h (fsPath sel) = Inr files"
    and total: "sum_list (map (\<lambda>f. case statSync h (path_join (fsPath sel) f) of
                   Inl e \<Rightarrow> 0 | Inr s \<Rightarrow> size_st s) files) \<le> 9007199254740991"
    and exts: "exts = map (\<lambda>f. toLowerCase (extname f))
                 (filter (\<lambda>f. is_file_entry h (fsPath sel) f \<and> extname f \<noteq> []) files)"
    and E: "E = map (\<lambda>k. (k, count_list exts k)) (rev (remdups (rev exts)))"
    and shown: "shown = top_extensions (countFileTypes h (fsPath sel))"
  shows
   "length shown = min 3 (length E) \<and>
    set shown \<subseteq> set E \<and>
    sorted_wrt (\<lambda>a b. snd b \<le> snd a) shown \<and>
    (\<forall>e\<in>set E - set shown. \<forall>t\<in>set shown. snd e \<le> snd t) \<and>
    (\<forall>c. prefix (filter (\<lambda>e. snd e = c) shown) (filter (\<lambda>e. snd e = c) E)) \<and>
    (\<forall>e\<in>set shown. \<exists>x. fst e = CHR ''.'' # x) \<and>
    (\<forall>n. is_decimal_of (show_nat n) n) \<and>
    calculateDirSize h (fsPath sel) =
      sum_list (map (\<lambda>f. case statSync h (path_join (fsPath sel) f) of
                            Inl e \<Rightarrow> 0 | Inr s \<Rightarrow> size_st s) files) \<and>
    getChildren h st None =
      [new_DirectoryItem (''Directory: '' @ basename (fsPath sel)) Collapsible_None
         (Some (fsPath sel)) (Some ''directory''),
       info_row (''Created: '' @ toLocaleString h (birthtime s)),
       info_row (''Modified: '' @ toLocaleString h (mtime s)),
       info_row (''Permissions: '' @ show_radix 8 (mode s mod 512)),
       info_row (''Size (approx): '' @ formatSize (calculateDirSize h (fsPath sel))),
       info_row (''Contains: '' @ show_nat (length files) @ '' items'')]
      @ (if 0 < length (filter (is_dir_entry h (fsPath sel)) files)
         then [info_row (''Subdirectories: '' @
                 show_nat (length (filter (is_dir_entry h (fsPath sel)) files)))]
         else [])
      @ (if 0 < length (filter (is_file_entry h (fsPath sel)) files)
         then [info_row (''Files: '' @
                 show_nat (length (filter (is_file_entry h (fsPath sel)) files)))]
         else [])
      @ (if shown = [] then []
         else [info_row (''Common types: '' @
                 join_sep '', '' (map (\<lambda>e. drop 1 (fst e) @ '': '' @ show_nat (snd e)) shown))])"
proof -
  have entries: "filter (\<lambda>e. fst e \<notin> set reserved_keys) (countFileTypes h (fsPath sel)) = E"
    using countFileTypes_extension_entries [OF rd exts] E by simp
  then have take3: "shown = take 3 (sort_desc E)"
    using shown by (simp add: top_extensions_def)
  note props = top3_properties [of E, folded take3]
  have dots: "\<forall>e\<in>set shown. \<exists>x. fst e = CHR ''.'' # x"
  proof
    fix e assume "e \<in> set shown"
    with props(2) have "e \<in> set E" by blast
    then have "fst e \<in> set exts"
      using E by auto
    then obtain f where "extname f \<noteq> []" and "fst e = toLowerCase (extname f)"
      using exts by auto
    then show "\<exists>x. fst e = CHR ''.'' # x"
      using lowered_extension_dot by simp
  qed
  have numerals: "\<forall>n. is_decimal_of (show_nat n) n"
    by (simp add: show_nat_decimal)
  have size_sum: "calculateDirSize h (fsPath sel) =
      sum_list (map (\<lambda>f. case statSync h (path_join (fsPath sel) f) of
                            Inl e \<Rightarrow> 0 | Inr s \<Rightarrow> size_st s) files)"
    using rd total foldl_size_entry [of 0 h "fsPath sel" files]
    by (simp add: calculateDirSize_def)
  have common: "common_rows (countFileTypes h (fsPath sel)) =
      (if shown = [] then []
       else [info_row (''Common types: '' @
               join_sep '', '' (map (\<lambda>e. drop 1 (fst e) @ '': '' @ show_nat (snd e)) shown))])"
    using shown by (simp add: common_rows_def extensionSummary_def Let_def)
  have rows: "getChildren h st None =
      [new_DirectoryItem (''Directory: '' @ basename (fsPath sel)) Collapsible_None
         (Some (fsPath sel)) (Some ''directory''),
       info_row (''Created: '' @ toLocaleString h (birthtime s)),
       info_row (''Modified: '' @ toLocaleString h (mtime s)),
       info_row (''Permissions: '' @ show_radix 8 (mode s mod 512)),
       info_row (''Size (approx): '' @ formatSize (calculateDirSize h (fsPath sel))),
       info_row (''Contains: '' @ show_nat (length files) @ '' items'')]
      @ (if 0 < length (filter (is_dir_entry h (fsPath sel)) files)
         then [info_row (''Subdirectories: '' @
                 show_nat (length (filter (is_dir_entry h (fsPath sel)) files)))]
         else [])
      @ (if 0 < length (filter (is_file_entry h (fsPath sel)) files)
         then [info_row (''Files: '' @
                 show_nat (length (filter (is_file_entry h (fsPath sel)) files)))]
         else [])
      @ (if shown = [] then []
         else [info_row (''Common types: '' @
                 join_sep '', '' (map (\<lambda>e. drop 1 (fst e) @ '': '' @ show_nat (snd e)) shown))])"
    unfolding directory_selection_rows [OF sel stat dir rd] count_rows_explicit [OF rd] common
    by (simp only: append_assoc)
  from props dots numerals size_sum rows show ?thesis by blast
qed

theorem common_types_row_witness:
  "currentSelection (selecting ''/proj'') = Some \<lparr> fsPath = ''/proj'' \<rparr> \<and>
   statSync demo_host ''/proj'' = Inr dir_stats \<and> isDirectory dir_stats \<and>
   readdirSync demo_host ''/proj'' = Inr [''a.txt'', ''b.txt'', ''c.md'', ''sub''] \<and>
   sum_list (map (\<lambda>f. case statSync demo_host (path_join ''/proj'' f) of
                        Inl e \<Rightarrow> 0 | Inr s \<Rightarrow> size_st s)
               [''a.txt'', ''b.txt'', ''c.md'', ''sub'']) \<le> (9007199254740991 :: nat) \<and>
   top_extensions (countFileTypes demo_host ''/proj'') = [(''.txt'', 2), (''.md'', 1)] \<and>
   map label (getChildren demo_host (selecting ''/proj'') None) =
     [''Directory: proj'', ''Created: 1'', ''Modified: 2'', ''Permissions: 755'',
      ''Size (approx): 6.0 KB'', ''Contains: 4 items'', ''Subdirectories: 1'', ''Files: 3'',
      ''Common types: txt: 2, md: 1''] \<and>
   currentSelection (selecting ''/logs'') = Some \<lparr> fsPath = ''/logs'' \<rparr> \<and>
   statSync demo_host ''/logs'' = Inr dir_stats \<and>
   readdirSync demo_host ''/logs'' = Inr logs_listing \<and>
   sum_list (map (\<lambda>f. case statSync demo_host (path_join ''/logs'' f) of
                        Inl e \<Rightarrow> 0 | Inr s \<Rightarrow> size_st s) logs_listing)
     \<le> (9007199254740991 :: nat) \<and>
   top_extensions (countFileTypes demo_host ''/logs'') =
     [(''.log'', 11), ([CHR ''.'', CHR 0xE9], 2), (''.c'', 1)] \<and>
   is_decimal_of ''11'' 11 \<and>
   map label (getChildren demo_host (selecting ''/logs'') None) =
     [''Directory: logs'', ''Created: 1'', ''Modified: 2'', ''Permissions: 755'',
      ''Size (approx): 15 bytes'', ''Contains: 15 items'', ''Files: 15'',
      ''Common types: log: 11, '' @ [CHR 0xE9] @ '': 2, c: 1'']"
proof -
  have sel: "currentSelection (selecting ''/proj'') = Some \<lparr> fsPath = ''/proj'' \<rparr>"
    and sel': "currentSelection (selecting ''/logs'') = Some \<lparr> fsPath = ''/logs'' \<rparr>"
    by (simp_all add: demo_defs)
  have stat: "statSync demo_host (fsPath \<lparr> fsPath = ''/proj'' \<rparr>) = Inr dir_stats"
    and stat': "statSync demo_host (fsPath \<lparr> fsPath = ''/logs'' \<rparr>) = Inr dir_stats"
    by (simp_all add: demo_defs)
  have dir: "isDirectory dir_stats"
    by (simp add: dir_stats_def)
  have rd: "readdirSync demo_host (fsPath \<lparr> fsPath = ''/proj'' \<rparr>) =
              Inr [''a.txt'', ''b.txt'', ''c.md'', ''sub'']"
    and rd': "readdirSync demo_host (fsPath \<lparr> fsPath = ''/logs'' \<rparr>) = Inr logs_listing"
    by (simp_all add: demo_host_fields demo_readdir_def)
  have total: "sum_list (map (\<lambda>f. case statSync demo_host
                    (path_join (fsPath \<lparr> fsPath = ''/proj'' \<rparr>) f) of
                        Inl e \<Rightarrow> 0 | Inr s \<Rightarrow> size_st s)
               [''a.txt'', ''b.txt'', ''c.md'', ''sub'']) = 6111"
    by (simp add: demo_defs path_defs)
  have total': "sum_list (map (\<lambda>f. case statSync demo_host
                    (path_join (fsPath \<lparr> fsPath = ''/logs'' \<rparr>) f) of
                        Inl e \<Rightarrow> 0 | Inr s \<Rightarrow> size_st s) logs_listing) = 15"
    by (simp add: demo_defs path_defs)
  have bound: "sum_list (map (\<lambda>f. case statSync demo_host
                    (path_join (fsPath \<lparr> fsPath = ''/proj'' \<rparr>) f) of
                        Inl e \<Rightarrow> 0 | Inr s \<Rightarrow> size_st s)
               [''a.txt'', ''b.txt'', ''c.md'', ''sub'']) \<le> 9007199254740991"
    and bound': "sum_list (map (\<lambda>f. case statSync demo_host
                    (path_join (fsPath \<lparr> fsPath = ''/logs'' \<rparr>) f) of
                        Inl e \<Rightarrow> 0 | Inr s \<Rightarrow> size_st s) logs_listing) \<le> 9007199254740991"
    by (simp_all only: total total')
  note row = common_types_row [OF sel stat dir rd bound refl refl refl]
  note row' = common_types_row [OF sel' stat' dir rd' bound' refl refl refl]
  note size_row = row [THEN conjunct2, THEN conjunct2, THEN conjunct2, THEN conjunct2, THEN conjunct2, THEN conjunct2, THEN conjunct2, THEN conjunct1]
  note size_row' = row' [THEN conjunct2, THEN conjunct2, THEN conjunct2, THEN conjunct2, THEN conjunct2, THEN conjunct2, THEN conjunct2, THEN conjunct1]
  note all_rows = row [THEN conjunct2, THEN conjunct2, THEN conjunct2, THEN conjunct2, THEN conjunct2, THEN conjunct2, THEN conjunct2, THEN conjunct2]
  note all_rows' = row' [THEN conjunct2, THEN conjunct2, THEN conjunct2, THEN conjunct2, THEN conjunct2, THEN conjunct2, THEN conjunct2, THEN conjunct2]
  have size: "calculateDirSize demo_host ''/proj'' = 6111"
    using size_row total by simp
  have size': "calculateDirSize demo_host ''/logs'' = 15"
    using size_row' total' by simp
  have rows: "map label (getChildren demo_host (selecting ''/proj'') None) =
     [''Directory: proj'', ''Created: 1'', ''Modified: 2'', ''Permissions: 755'',
      ''Size (approx): 6.0 KB'', ''Contains: 4 items'', ''Subdirectories: 1'', ''Files: 3'',
      ''Common types: txt: 2, md: 1'']"
    using all_rows
    by (simp add: demo_top_extensions size demo_defs path_defs entry_defs show_defs row_defs
        formatSize_def toFixed1_def)
  have rows': "map label (getChildren demo_host (selecting ''/logs'') None) =
     [''Directory: logs'', ''Created: 1'', ''Modified: 2'', ''Permissions: 755'',
      ''Size (approx): 15 bytes'', ''Contains: 15 items'', ''Files: 15'',
      ''Common types: log: 11, '' @ [CHR 0xE9] @ '': 2, c: 1'']"
    using all_rows'
    by (simp add: demo_top_extensions size' demo_defs path_defs entry_defs show_defs row_defs
        formatSize_def toFixed1_def)
  have eleven: "is_decimal_of ''11'' 11"
    by (simp add: is_decimal_of_def is_digit_def digit_val_def decimal_value_def)
  from sel sel' stat stat' dir rd rd' total total' rows rows' eleven demo_top_extensions(1,3)
  show ?thesis by simp
qed

end
